theory Spec2Isabelle
  imports Main "HOL-Library.Multiset" "HOL-Library.Char_ord" "HOL-Library.List_Lexorder"
begin

section \<open>JavaScript strings and regular expressions\<close>

text \<open>
  The markdown pipeline runs in the browser on JavaScript strings: sequences of UTF-16
  code units, here natural numbers (below 65536). \<open>js\<close> writes an ASCII literal as such
  a string.
\<close>

type_synonym jsstring = "nat list"

definition js :: "string \<Rightarrow> jsstring" where
  "js s = map of_char s"

text \<open>
  The character classes of a regular expression without the \<^verbatim>\<open>u\<close> flag: the line
  terminators (what \<^verbatim>\<open>.\<close> leaves out and what \<^verbatim>\<open>^\<close> and \<^verbatim>\<open>$\<close> look for under the
  \<^verbatim>\<open>m\<close> flag), \<^verbatim>\<open>\s\<close> (white space and line terminators; \<^verbatim>\<open>trim\<close> strips the same
  set) and \<^verbatim>\<open>\w\<close>.
\<close>

definition isLineTerminator :: "nat \<Rightarrow> bool" where
  "isLineTerminator c = (c = 10 \<or> c = 13 \<or> c = 8232 \<or> c = 8233)"

definition isWhiteSpace :: "nat \<Rightarrow> bool" where
  "isWhiteSpace c =
     (c = 9 \<or> c = 11 \<or> c = 12 \<or> c = 32 \<or> c = 160 \<or> c = 5760 \<or> (8192 \<le> c \<and> c \<le> 8202)
      \<or> c = 8239 \<or> c = 8287 \<or> c = 12288 \<or> c = 65279 \<or> isLineTerminator c)"

definition isWordChar :: "nat \<Rightarrow> bool" where
  "isWordChar c = ((48 \<le> c \<and> c \<le> 57) \<or> (65 \<le> c \<and> c \<le> 90) \<or> c = 95 \<or> (97 \<le> c \<and> c \<le> 122))"

text \<open>One character: a given one, \<^verbatim>\<open>\w\<close>, \<^verbatim>\<open>\s\<close>, \<^verbatim>\<open>.\<close>, \<^verbatim>\<open>[\s\S]\<close>.\<close>

datatype cset = Only nat | Word | Space | Dot | Every

fun in_cset :: "cset \<Rightarrow> nat \<Rightarrow> bool" where
  "in_cset (Only a) c = (c = a)"
| "in_cset Word c = isWordChar c"
| "in_cset Space c = isWhiteSpace c"
| "in_cset Dot c = (\<not> isLineTerminator c)"
| "in_cset Every c = True"

text \<open>
  The patterns the source uses: a character, \<^verbatim>\<open>^\<close> and \<^verbatim>\<open>$\<close> (under the \<^verbatim>\<open>m\<close> flag),
  the empty pattern, sequence, alternative \<^verbatim>\<open>a|b\<close>, the greedy \<^verbatim>\<open>r*\<close>, the lazy
  \<^verbatim>\<open>r*?\<close>, and the capturing group with its number.
\<close>

datatype regex =
    Chr cset
  | BOL
  | EOL
  | Epsilon
  | Seq regex regex
  | Alt regex regex
  | Star regex
  | Lazy regex
  | Group nat regex

text \<open>\<^verbatim>\<open>r+\<close> is one \<^verbatim>\<open>r\<close> and then \<^verbatim>\<open>r*\<close>; \<^verbatim>\<open>r?\<close> tries \<^verbatim>\<open>r\<close> and then nothing.\<close>

definition plus_of :: "regex \<Rightarrow> regex" where
  "plus_of r = Seq r (Star r)"

definition opt :: "regex \<Rightarrow> regex" where
  "opt r = Alt r Epsilon"

fun lit :: "jsstring \<Rightarrow> regex" where
  "lit [] = Epsilon"
| "lit (c # cs) = Seq (Chr (Only c)) (lit cs)"

text \<open>
  A state of the match: the character before the current position (none at the start
  of the input), the input from the current position on, and the captures so far.
\<close>

type_synonym mstate = "nat option \<times> jsstring \<times> (nat \<rightharpoonup> jsstring)"

definition remaining :: "mstate \<Rightarrow> nat" where
  "remaining x = length (fst (snd x))"

text \<open>
  The backtracking matcher of the language: \<open>matcher r x k\<close> matches \<open>r\<close> from the state
  \<open>x\<close> and hands each state it can end in to the continuation \<open>k\<close> (the rest of the
  pattern), in the order of preference, until \<open>k\<close> succeeds; \<open>None\<close> is failure. A
  greedy repetition tries one more round before it tries to stop, a lazy one the other
  way round; a round that consumes nothing is not repeated.
\<close>

function (sequential) matcher :: "regex \<Rightarrow> mstate \<Rightarrow> (mstate \<Rightarrow> mstate option) \<Rightarrow> mstate option" where
  "matcher (Chr cs) (p, s, g) k =
     (case s of [] \<Rightarrow> None | c # s' \<Rightarrow> if in_cset cs c then k (Some c, s', g) else None)"
| "matcher BOL (p, s, g) k =
     (case p of None \<Rightarrow> k (p, s, g) | Some c \<Rightarrow> if isLineTerminator c then k (p, s, g) else None)"
| "matcher EOL (p, s, g) k =
     (case s of [] \<Rightarrow> k (p, s, g) | c # s' \<Rightarrow> if isLineTerminator c then k (p, s, g) else None)"
| "matcher Epsilon x k = k x"
| "matcher (Seq a b) x k = matcher a x (\<lambda>y. matcher b y k)"
| "matcher (Alt a b) x k = (case matcher a x k of Some r \<Rightarrow> Some r | None \<Rightarrow> matcher b x k)"
| "matcher (Star r) x k =
     (case matcher r x (\<lambda>y. if remaining y < remaining x then matcher (Star r) y k else None) of
        Some res \<Rightarrow> Some res
      | None \<Rightarrow> k x)"
| "matcher (Lazy r) x k =
     (case k x of
        Some res \<Rightarrow> Some res
      | None \<Rightarrow> matcher r x (\<lambda>y. if remaining y < remaining x then matcher (Lazy r) y k else None))"
| "matcher (Group n r) (p, s, g) k =
     matcher r (p, s, g) (\<lambda>(p', s', g'). k (p', s', g'(n \<mapsto> take (length s - length s') s)))"
  by pat_completeness auto
termination
  by (relation "inv_image (less_than <*lex*> less_than) (\<lambda>(r, x, k). (size r, remaining x))") auto

text \<open>
  A notion for the proofs, not a function of the program: what a match has done between
  two of its states. It has consumed the text \<open>m\<close> of the input, and the character before
  the new position is the last one of \<open>m\<close>.
\<close>

definition advance :: "mstate \<Rightarrow> jsstring \<Rightarrow> mstate \<Rightarrow> bool" where
  "advance x m y =
     (fst (snd x) = m @ fst (snd y) \<and> fst y = (if m = [] then fst x else Some (last m)))"

text \<open>
  \<^verbatim>\<open>String.prototype.replace\<close> with a global regular expression and a callback. First
  the matches are found, from left to right: each search tries the positions from where
  the last match ended (one further on after an empty match), and the first position
  where the pattern matches wins. The text is cut into the characters no match covers
  and the matches, each with its captures.
\<close>

datatype segment = Unmatched nat | Matched jsstring "nat \<rightharpoonup> jsstring"

function segments :: "regex \<Rightarrow> nat option \<Rightarrow> jsstring \<Rightarrow> segment list" where
  "segments re p s =
     (case matcher re (p, s, Map.empty) Some of
        None \<Rightarrow> (case s of [] \<Rightarrow> [] | c # cs \<Rightarrow> Unmatched c # segments re (Some c) cs)
      | Some (p', s', g) \<Rightarrow>
          Matched (take (length s - length s') s) g #
            (if length s' < length s then segments re p' s'
             else (case s of [] \<Rightarrow> [] | c # cs \<Rightarrow> Unmatched c # segments re (Some c) cs)))"
  by pat_completeness auto
termination
  by (relation "measure (\<lambda>(re, p, s). length s)") auto

declare segments.simps [simp del]

text \<open>
  Then the callback is called on each match in turn, and its results take the place of
  the matches. The callback may have a state (here: how many random numbers it drew).
\<close>

fun substitute ::
  "(jsstring \<Rightarrow> (nat \<rightharpoonup> jsstring) \<Rightarrow> 'st \<Rightarrow> jsstring \<times> 'st) \<Rightarrow> segment list \<Rightarrow> 'st \<Rightarrow> jsstring"
where
  "substitute f [] st = []"
| "substitute f (Unmatched c # segs) st = c # substitute f segs st"
| "substitute f (Matched match g # segs) st =
     (case f match g st of (out, st') \<Rightarrow> out @ substitute f segs st')"

definition replace ::
  "regex \<Rightarrow> (jsstring \<Rightarrow> (nat \<rightharpoonup> jsstring) \<Rightarrow> 'st \<Rightarrow> jsstring \<times> 'st) \<Rightarrow> jsstring \<Rightarrow> 'st \<Rightarrow> jsstring"
where
  "replace re f s st = substitute f (segments re None s) st"

text \<open>
  \<^verbatim>\<open>toLowerCase\<close> and \<^verbatim>\<open>toUpperCase\<close> on the characters of \<^verbatim>\<open>\w\<close>, the only ones the
  source applies them to; \<^verbatim>\<open>trim\<close>.
\<close>

definition toLowerCase :: "jsstring \<Rightarrow> jsstring" where
  "toLowerCase s = map (\<lambda>c. if 65 \<le> c \<and> c \<le> 90 then c + 32 else c) s"

definition toUpperCase :: "jsstring \<Rightarrow> jsstring" where
  "toUpperCase s = map (\<lambda>c. if 97 \<le> c \<and> c \<le> 122 then c - 32 else c) s"

definition trim :: "jsstring \<Rightarrow> jsstring" where
  "trim s = rev (dropWhile isWhiteSpace (rev (dropWhile isWhiteSpace s)))"

section \<open>Admonition preprocessing\<close>

text \<open>\<^verbatim>\<open>ADMONITION_ICONS\<close>, each icon by its code units, and \<^verbatim>\<open>Object.keys\<close> of it.\<close>

definition ADMONITION_ICONS :: "(jsstring \<times> jsstring) list" where
  "ADMONITION_ICONS =
     [(js ''note'', [8505, 65039]), (js ''info'', [8505, 65039]),
      (js ''tip'', [55357, 56481]), (js ''success'', [9989]), (js ''hint'', [55357, 56481]),
      (js ''warning'', [9888, 65039]), (js ''caution'', [9888, 65039]), (js ''attention'', [9888, 65039]),
      (js ''danger'', [55357, 57000]), (js ''error'', [10060]), (js ''bug'', [55357, 56347]),
      (js ''example'', [55357, 56541]), (js ''abstract'', [55357, 56523]), (js ''question'', [10067]),
      (js ''quote'', [55357, 56492]), (js ''failure'', [10071])]"

definition ADMONITION_TYPES :: "jsstring list" where
  "ADMONITION_TYPES = map fst ADMONITION_ICONS"

text \<open>
  The regular expression of \<^verbatim>\<open>preprocessAdmonitions\<close>, flags \<^verbatim>\<open>g\<close> and \<^verbatim>\<open>m\<close>:
  \<^verbatim>\<open>^(?::::|!!!) *(\w+)(?: +(.+))?\n([\s\S]*?)(?::::|!!!)\s*$\<close>
\<close>

definition delimiter :: regex where
  "delimiter = Alt (lit (js '':::'')) (lit (js ''!!!''))"

definition admonition_regex :: regex where
  "admonition_regex =
     Seq BOL (Seq delimiter (Seq (Star (Chr (Only 32))) (Seq (Group 1 (plus_of (Chr Word)))
       (Seq (opt (Seq (plus_of (Chr (Only 32))) (Group 2 (plus_of (Chr Dot)))))
         (Seq (Chr (Only 10)) (Seq (Group 3 (Lazy (Chr Every)))
           (Seq delimiter (Seq (Star (Chr Space)) EOL))))))))"

text \<open>
  The callback \<^verbatim>\<open>(match, type, title, body) => ...\<close>. \<open>title\<close> is \<open>None\<close> when the
  second group took no part in the match, and \<^verbatim>\<open>title || ...\<close> takes the default for
  that and for the empty string. \<open>random n\<close> is the text that
  \<^verbatim>\<open>Math.random().toString(36).substring(2, 10)\<close> gives at the \<open>n\<close>-th call, and the
  state of the callback counts the calls.
\<close>

definition admonition ::
  "(nat \<Rightarrow> jsstring) \<Rightarrow> jsstring \<Rightarrow> jsstring \<Rightarrow> jsstring option \<Rightarrow> jsstring \<Rightarrow> nat \<Rightarrow> jsstring \<times> nat"
where
  \<open>admonition random match type title body n =
     (let typeLower = toLowerCase type in
      if typeLower \<notin> set ADMONITION_TYPES then (match, n)
      else
        (let capitalized = toUpperCase (take 1 typeLower) @ drop 1 typeLower;
             displayTitle = (case title of
                               None \<Rightarrow> capitalized
                             | Some t \<Rightarrow> if t = [] then capitalized else t);
             icon = (case map_of ADMONITION_ICONS typeLower of
                       None \<Rightarrow> [8505, 65039]
                     | Some i \<Rightarrow> if i = [] then [8505, 65039] else i);
             id = random n
         in (js ''\<newline><div class="admonition admonition-'' @ typeLower
               @ js ''" data-admonition="'' @ id
               @ js ''"><p class="admonition-title">'' @ icon @ js '' '' @ displayTitle
               @ js ''</p>\<newline>\<newline>'' @ trim body @ js ''\<newline>\<newline></div>\<newline>'',
             Suc n)))\<close>

text \<open>
  The arguments the callback gets from a match: a group that took part is its text (the
  first and the third always do).
\<close>

definition capture :: "(nat \<rightharpoonup> jsstring) \<Rightarrow> nat \<Rightarrow> jsstring" where
  "capture g n = (case g n of None \<Rightarrow> [] | Some v \<Rightarrow> v)"

definition preprocessAdmonitions :: "(nat \<Rightarrow> jsstring) \<Rightarrow> jsstring \<Rightarrow> jsstring" where
  "preprocessAdmonitions random markdown =
     replace admonition_regex
       (\<lambda>match g n. admonition random match (capture g 1) (g 2) (capture g 3) n)
       markdown 0"

text \<open>The keywords of the blocks the regular expression finds in a text.\<close>

fun block_keywords :: "segment list \<Rightarrow> jsstring list" where
  "block_keywords [] = []"
| "block_keywords (Unmatched c # segs) = block_keywords segs"
| "block_keywords (Matched match g # segs) = capture g 1 # block_keywords segs"

definition sample_random :: "nat \<Rightarrow> jsstring" where
  "sample_random n = js ''k3j9x2ab''"

section \<open>Code blocks\<close>

text \<open>
  The highlighting library, as the renderer uses it: \<^verbatim>\<open>hljs.getLanguage(lang)\<close> (is the
  language known), \<^verbatim>\<open>hljs.highlight(code, {language}).value\<close> and
  \<^verbatim>\<open>hljs.highlightAuto(code).value\<close>, each \<open>None\<close> when the call throws.
\<close>

record hljs =
  getLanguage :: "jsstring \<Rightarrow> bool"
  highlight :: "jsstring \<Rightarrow> jsstring \<Rightarrow> jsstring option"
  highlightAuto :: "jsstring \<Rightarrow> jsstring option"

text \<open>\<^verbatim>\<open>.replace(/&/g, '&amp;').replace(/</g, '&lt;').replace(/>/g, '&gt;')\<close>\<close>

definition replace_char :: "nat \<Rightarrow> jsstring \<Rightarrow> jsstring \<Rightarrow> jsstring" where
  "replace_char c by s = concat (map (\<lambda>x. if x = c then by else [x]) s)"

definition escape_html :: "jsstring \<Rightarrow> jsstring" where
  "escape_html codeStr =
     replace_char 62 (js ''&gt;'') (replace_char 60 (js ''&lt;'') (replace_char 38 (js ''&amp;'') codeStr))"

text \<open>
  \<^verbatim>\<open>lang\<close> is \<open>None\<close> when the fence declares no language; \<^verbatim>\<open>lang ? ... : ...\<close> takes
  the second branch for that and for the empty string.
\<close>

definition declared :: "jsstring option \<Rightarrow> bool" where
  "declared lang = (case lang of None \<Rightarrow> False | Some l \<Rightarrow> l \<noteq> [])"

definition lang_text :: "jsstring option \<Rightarrow> jsstring" where
  "lang_text lang = (case lang of None \<Rightarrow> [] | Some l \<Rightarrow> l)"

text \<open>
  The \<^verbatim>\<open>if\<close> statement of \<^verbatim>\<open>renderer.code\<close> that computes \<^verbatim>\<open>highlighted\<close>. In its first
  branch the \<^verbatim>\<open>catch\<close> calls \<^verbatim>\<open>hljs.highlightAuto\<close> outside any \<^verbatim>\<open>try\<close>: when that call
  throws, the renderer throws (\<open>None\<close>).
\<close>

definition highlighted :: "hljs \<Rightarrow> jsstring \<Rightarrow> jsstring option \<Rightarrow> jsstring option" where
  "highlighted h codeStr lang =
     (if declared lang \<and> getLanguage h (lang_text lang) then
        (case highlight h codeStr (lang_text lang) of
           Some v \<Rightarrow> Some v
         | None \<Rightarrow> highlightAuto h codeStr)
      else
        (case highlightAuto h codeStr of
           Some v \<Rightarrow> Some v
         | None \<Rightarrow> Some (escape_html codeStr)))"

definition langLabel :: "jsstring option \<Rightarrow> jsstring" where
  \<open>langLabel lang =
     (if declared lang then js ''<span class="code-lang-label">'' @ lang_text lang @ js ''</span>''
      else [])\<close>

text \<open>
  \<^verbatim>\<open>renderer.code\<close>: the HTML of a fenced code block, \<open>None\<close> when the renderer throws.
  \<open>codeStr\<close> and \<open>lang\<close> are what its first two statements read from the arguments
  (a token object, or the code and the language, as the version of marked passes them).
\<close>

definition code :: "hljs \<Rightarrow> jsstring \<Rightarrow> jsstring option \<Rightarrow> jsstring option" where
  \<open>code h codeStr lang =
     (case highlighted h codeStr lang of
        None \<Rightarrow> None
      | Some v \<Rightarrow>
          Some (js ''<div class="code-block-wrapper">'' @ langLabel lang
                @ js ''<pre><code class="hljs''
                @ (if declared lang then js '' language-'' @ lang_text lang else [])
                @ js ''">'' @ v @ js ''</code></pre></div>''))\<close>

text \<open>
  Sample libraries for concrete runs: one that knows \<^verbatim>\<open>js\<close> only, whose \<^verbatim>\<open>highlight\<close>
  throws and whose detection answers; and one whose calls all throw.
\<close>

definition failing_hljs :: hljs where
  "failing_hljs =
     \<lparr>getLanguage = (\<lambda>l. l = js ''js''), highlight = (\<lambda>c l. None),
      highlightAuto = (\<lambda>c. Some (js ''<span>AUTO</span>''))\<rparr>"

definition broken_hljs :: hljs where
  "broken_hljs =
     \<lparr>getLanguage = (\<lambda>l. l = js ''js''), highlight = (\<lambda>c l. None), highlightAuto = (\<lambda>c. None)\<rparr>"

section \<open>HTTP responses\<close>

text \<open>
  Every route handler of the server ends in \<^verbatim>\<open>res.status(n).json(...)\<close> (or
  \<^verbatim>\<open>res.json(...)\<close>, status 200). A response is the status code and the JSON payload:
  a literal \<^verbatim>\<open>{message: '...'}\<close>, the message of a caught exception
  (\<^verbatim>\<open>{message: error.message}\<close>, whose text the libraries produce), or data.
\<close>

datatype error =
    CastError
  | ValidationError
  | DuplicateKey
  | TypeError
  | BodyError
  | URIError
  | UpstreamError string

text \<open>
  \<open>Page\<close> is the HTML page with which Express itself answers a request that no route
  takes (\<^verbatim>\<open>Cannot GET\<close> and the path, status 404).
\<close>

datatype 'a payload =
    Message string
  | ErrorMessage error
  | Data 'a
  | Page

datatype 'a response = Response (status: nat) (payload: "'a payload")

text \<open>
  The error-handling middleware registered last with \<^verbatim>\<open>app.use((err, req, res, next) => ...)\<close>:
  whatever the error, status 500 and the fixed message.
\<close>

definition error_handler :: "'e \<Rightarrow> 'a response" where
  "error_handler err = Response 500 (Message ''Error!'')"

section \<open>The middleware before the routes\<close>

text \<open>
  The server registers \<^verbatim>\<open>helmet()\<close>, \<^verbatim>\<open>cors(...)\<close>, \<^verbatim>\<open>express.json()\<close>,
  \<^verbatim>\<open>express.urlencoded(...)\<close> and, for the paths under \<^verbatim>\<open>/api/\<close>, the rate limiter
  \<^verbatim>\<open>limiter\<close> before every route, in this order; a request to a route has passed them
  all. The first two set headers and let every GET, POST, PUT and DELETE request go on.

  The body parsers read the body of the request. A body they refuse (JSON that does not
  parse, or that is neither an object nor an array; a body longer than the parser
  allows) is an error handed to \<^verbatim>\<open>next(err)\<close>, which skips the limiter and every route and
  reaches the error-handling middleware. Otherwise the request goes on with
  \<^verbatim>\<open>req.body\<close> set: to what was parsed, or to the empty object for a request whose body
  is of no type the parsers read.
\<close>

datatype 'b request_body = Refused | Parsed 'b

definition express_json ::
  "'b request_body \<Rightarrow> ('b \<Rightarrow> 's \<Rightarrow> 'a response \<times> 's) \<Rightarrow> 's \<Rightarrow> 'a response \<times> 's"
where
  "express_json body next s =
     (case body of
        Refused \<Rightarrow> (error_handler BodyError, s)
      | Parsed b \<Rightarrow> next b s)"

text \<open>
  \<^verbatim>\<open>app.use('/api/', limiter)\<close>, with
  \<^verbatim>\<open>rateLimit({ windowMs: ..., max: ..., message: { message: 'Too many requests' } })\<close>.
  \<open>exceeded\<close> says that the client has used up its allowance of the window; the limiter
  answers such a request itself, with status 429, and lets every other request go on.
  The limiter counts requests, not documents: the state \<open>s\<close> of the model is the store.
\<close>

definition limiter :: "bool \<Rightarrow> ('s \<Rightarrow> 'a response \<times> 's) \<Rightarrow> 's \<Rightarrow> 'a response \<times> 's" where
  "limiter exceeded next s =
     (if exceeded then (Response 429 (Message ''Too many requests''), s) else next s)"

section \<open>Authentication middleware\<close>

text \<open>
  \<^verbatim>\<open>"a b".split(' ')\<close>: the pieces between the separators, empty pieces included;
  the empty string splits into one empty piece.
\<close>

fun split_on :: "char \<Rightarrow> string \<Rightarrow> string list" where
  "split_on c [] = [[]]"
| "split_on c (x # xs) =
     (if x = c then [] # split_on c xs
      else (case split_on c xs of
              [] \<Rightarrow> [[x]]
            | w # ws \<Rightarrow> (x # w) # ws))"

text \<open>JavaScript array indexing: \<^verbatim>\<open>undefined\<close> (here \<open>None\<close>) out of range.\<close>

definition element_at :: "'a list \<Rightarrow> nat \<Rightarrow> 'a option" where
  "element_at xs n = (if n < length xs then Some (xs ! n) else None)"

text \<open>
  \<^verbatim>\<open>req.headers.authorization?.split(' ')[1]\<close>. The header is \<open>None\<close> when the request
  carries no Authorization header.
\<close>

definition bearer_token :: "string option \<Rightarrow> string option" where
  "bearer_token authorization =
     (case authorization of
        None \<Rightarrow> None
      | Some h \<Rightarrow> element_at (split_on CHR '' '' h) 1)"

text \<open>
  \<^verbatim>\<open>authMiddleware\<close>. \<open>jwt_verify t\<close> stands for
  \<^verbatim>\<open>jwt.verify(t, process.env.JWT_SECRET)\<close> returning (true) rather than throwing
  (false: not a JWT, wrong signature, expired). \<open>next\<close> is the rest of the route's
  handler chain, run on the server state \<open>s\<close>. \<^verbatim>\<open>!token\<close> holds for
  \<^verbatim>\<open>undefined\<close> and for the empty string.
\<close>

definition authMiddleware ::
  "(string \<Rightarrow> bool) \<Rightarrow> string option \<Rightarrow> ('s \<Rightarrow> 'a response \<times> 's) \<Rightarrow> 's \<Rightarrow> 'a response \<times> 's"
where
  "authMiddleware jwt_verify authorization next s =
     (case bearer_token authorization of
        None \<Rightarrow> (Response 401 (Message ''No token''), s)
      | Some token \<Rightarrow>
          if token = [] then (Response 401 (Message ''No token''), s)
          else if jwt_verify token then next s
          else (Response 401 (Message ''Invalid token''), s))"

text \<open>Sample environment for concrete runs: a verifier that accepts one token only.\<close>

definition sample_verify :: "string \<Rightarrow> bool" where
  "sample_verify t = (t = ''good'')"

definition sample_next :: "nat \<Rightarrow> unit response \<times> nat" where
  "sample_next s = (Response 200 (Message ''Updated''), Suc s)"

section \<open>Image upload\<close>

text \<open>
  The multipart file as multer sees it: the content type the client declared and the
  number of bytes.
\<close>

record upload_file =
  mimetype :: string
  file_size :: nat

text \<open>\<^verbatim>\<open>String.prototype.startsWith\<close>.\<close>

fun startsWith :: "string \<Rightarrow> string \<Rightarrow> bool" where
  "startsWith s [] = True"
| "startsWith [] (p # ps) = False"
| "startsWith (x # xs) (p # ps) = (x = p \<and> startsWith xs ps)"

text \<open>\<^verbatim>\<open>limits: { fileSize: 10 * 1024 * 1024 }\<close>\<close>

definition fileSize :: nat where
  "fileSize = 10 * 1024 * 1024"

text \<open>
  The errors \<^verbatim>\<open>upload.single('image')\<close> hands to \<^verbatim>\<open>next(err)\<close>: the one the
  \<^verbatim>\<open>fileFilter\<close> creates, and multer's own for a file longer than the limit.
\<close>

datatype upload_error =
    OnlyImageFiles
  | LIMIT_FILE_SIZE

text \<open>\<^verbatim>\<open>fileFilter\<close>: accept exactly the content types that start with \<^verbatim>\<open>image/\<close>.\<close>

definition fileFilter :: "upload_file \<Rightarrow> upload_error + bool" where
  "fileFilter file =
     (if startsWith (mimetype file) ''image/'' then Inr True
      else Inl OnlyImageFiles)"

text \<open>
  \<^verbatim>\<open>upload.single('image')\<close>: with no file part the request goes on with
  \<^verbatim>\<open>req.file\<close> undefined; the filter runs when the part starts, the size limit while
  its bytes are read.
\<close>

definition upload_single :: "upload_file option \<Rightarrow> upload_error + upload_file option" where
  "upload_single part =
     (case part of
        None \<Rightarrow> Inr None
      | Some file \<Rightarrow>
          (case fileFilter file of
             Inl err \<Rightarrow> Inl err
           | Inr accepted \<Rightarrow>
               if file_size file > fileSize then Inl LIMIT_FILE_SIZE
               else Inr (Some file)))"

text \<open>What the storage provider returns for a stored image.\<close>

record upload_result =
  url :: string
  publicId :: string
  width :: nat
  height :: nat

text \<open>
  The body of the \<^verbatim>\<open>POST /api/upload\<close> handler. \<open>cloud folder file\<close> stands for the
  call to the storage provider: \<open>Inl msg\<close> when it fails with \<^verbatim>\<open>error.message = msg\<close>.
  \<^verbatim>\<open>req.query.folder || 'general'\<close> takes the default for a missing or empty parameter,
  and \<^verbatim>\<open>error.message || 'Upload failed'\<close> for an empty message.
\<close>

definition upload_handler ::
  "(string \<Rightarrow> upload_file \<Rightarrow> string + upload_result) \<Rightarrow> upload_file option \<Rightarrow> string option \<Rightarrow>
   's \<Rightarrow> upload_result response \<times> 's"
where
  "upload_handler cloud file folder s =
     (case file of
        None \<Rightarrow> (Response 400 (Message ''No image file provided''), s)
      | Some f \<Rightarrow>
          (let folder' = ''portfolio/'' @ (case folder of None \<Rightarrow> ''general''
                                           | Some q \<Rightarrow> if q = [] then ''general'' else q)
           in case cloud folder' f of
                Inl msg \<Rightarrow> (Response 500 (Message (if msg = [] then ''Upload failed'' else msg)), s)
              | Inr result \<Rightarrow> (Response 200 (Data result), s)))"

text \<open>
  \<^verbatim>\<open>app.post('/api/upload', authMiddleware, upload.single('image'), handler)\<close>: an error
  of the multer stage skips the handler and reaches the error-handling middleware.
\<close>

definition post_upload ::
  "(string \<Rightarrow> bool) \<Rightarrow> (string \<Rightarrow> upload_file \<Rightarrow> string + upload_result) \<Rightarrow>
   string option \<Rightarrow> upload_file option \<Rightarrow> string option \<Rightarrow> 's \<Rightarrow> upload_result response \<times> 's"
where
  "post_upload jwt_verify cloud authorization part folder =
     authMiddleware jwt_verify authorization
       (\<lambda>s. case upload_single part of
               Inl err \<Rightarrow> (error_handler err, s)
             | Inr file \<Rightarrow> upload_handler cloud file folder s)"

text \<open>
  The upload route behind the middleware registered before the routes. The body parsers
  leave a multipart body alone (\<open>Parsed\<close>, whatever it holds); they refuse a request to
  this path as to any other when it declares a body of theirs that they cannot read.
\<close>

definition upload_route ::
  "(string \<Rightarrow> bool) \<Rightarrow> (string \<Rightarrow> upload_file \<Rightarrow> string + upload_result) \<Rightarrow>
   string option \<Rightarrow> 'b request_body \<Rightarrow> bool \<Rightarrow> upload_file option \<Rightarrow> string option \<Rightarrow>
   's \<Rightarrow> upload_result response \<times> 's"
where
  "upload_route jwt_verify cloud authorization body exceeded part folder =
     express_json body
       (\<lambda>b. limiter exceeded (post_upload jwt_verify cloud authorization part folder))"

text \<open>Sample storage provider and files for concrete runs.\<close>

definition sample_cloud :: "string \<Rightarrow> upload_file \<Rightarrow> string + upload_result" where
  "sample_cloud folder f =
     Inr \<lparr>url = ''https://cdn/'' @ folder, publicId = folder, width = 1, height = 1\<rparr>"

definition text_file :: upload_file where
  "text_file = \<lparr>mimetype = ''text/plain'', file_size = 12\<rparr>"

definition png_file :: upload_file where
  "png_file = \<lparr>mimetype = ''image/png'', file_size = 2048\<rparr>"

section \<open>Documents and collections\<close>

text \<open>
  Every schema of \<^verbatim>\<open>models.js\<close> has the field \<^verbatim>\<open>order\<close> (a Number, default 0) and the
  option \<^verbatim>\<open>timestamps: true\<close>, which adds \<^verbatim>\<open>createdAt\<close> and \<^verbatim>\<open>updatedAt\<close>; the store
  adds \<^verbatim>\<open>_id\<close>. These fields are the common part of a document, the fields of each
  schema extend it. Dates are milliseconds, \<^verbatim>\<open>new Date()\<close> is the parameter \<open>now\<close> of a
  handler. A collection is the list of its documents in the store's own order.
\<close>

record doc =
  oid :: nat
  order :: int
  createdAt :: int
  updatedAt :: int

text \<open>\<^verbatim>\<open>Model.findById(id)\<close>: the document with that \<^verbatim>\<open>_id\<close>, or null.\<close>

definition findById :: "'a doc_scheme list \<Rightarrow> nat \<Rightarrow> 'a doc_scheme option" where
  "findById docs i = find (\<lambda>d. oid d = i) docs"

text \<open>
  \<^verbatim>\<open>Model.findByIdAndUpdate(id, update, { new: true })\<close>: the first document with that
  \<^verbatim>\<open>_id\<close> gets the fields of the update (\<open>upd\<close>, the update as the schema casts it) and,
  by the schema's timestamps option, a new \<^verbatim>\<open>updatedAt\<close>; the result is the updated
  document, or null when there is none, and the new collection.
\<close>

fun findByIdAndUpdate ::
  "int \<Rightarrow> 'a doc_scheme list \<Rightarrow> nat \<Rightarrow> ('a doc_scheme \<Rightarrow> 'a doc_scheme) \<Rightarrow>
   'a doc_scheme option \<times> 'a doc_scheme list"
where
  "findByIdAndUpdate now [] i upd = (None, [])"
| "findByIdAndUpdate now (d # ds) i upd =
     (if oid d = i then (Some ((upd d)\<lparr>updatedAt := now\<rparr>), (upd d)\<lparr>updatedAt := now\<rparr> # ds)
      else (case findByIdAndUpdate now ds i upd of
              (found, ds') \<Rightarrow> (found, d # ds')))"

text \<open>
  \<^verbatim>\<open>Model.find(...).sort(spec)\<close>: the documents in an order that respects the sort keys.
  The store fixes no order among documents whose keys are all equal; the model inserts
  each document before the first one that may follow it.
\<close>

fun place :: "('d \<Rightarrow> 'd \<Rightarrow> bool) \<Rightarrow> 'd \<Rightarrow> 'd list \<Rightarrow> 'd list" where
  "place before d [] = [d]"
| "place before d (e # es) = (if before d e then d # e # es else e # place before d es)"

definition sort_docs :: "('d \<Rightarrow> 'd \<Rightarrow> bool) \<Rightarrow> 'd list \<Rightarrow> 'd list" where
  "sort_docs before ds = foldr (place before) ds []"

text \<open>\<^verbatim>\<open>.sort({ order: 1 })\<close>\<close>

definition by_order :: "'a doc_scheme \<Rightarrow> 'a doc_scheme \<Rightarrow> bool" where
  "by_order a b = (order a \<le> order b)"

text \<open>\<^verbatim>\<open>.sort({ order: 1, createdAt: -1 })\<close>\<close>

definition by_order_createdAt :: "'a doc_scheme \<Rightarrow> 'a doc_scheme \<Rightarrow> bool" where
  "by_order_createdAt a b =
     (order a < order b \<or> (order a = order b \<and> createdAt b \<le> createdAt a))"

subsection \<open>The routes shared by the seven collections other than the blog\<close>

text \<open>
  \<^verbatim>\<open>GET /api/photography\<close>, \<^verbatim>\<open>/api/videos\<close>, \<^verbatim>\<open>/api/skills\<close>, \<^verbatim>\<open>/api/courses\<close>,
  \<^verbatim>\<open>/api/creatives\<close>: \<^verbatim>\<open>Model.find().sort({ order: 1 })\<close>.
\<close>

definition get_collection :: "'a doc_scheme list \<Rightarrow> 'a doc_scheme list response" where
  "get_collection docs = Response 200 (Data (sort_docs by_order docs))"

text \<open>\<^verbatim>\<open>GET /api/projects\<close>: \<^verbatim>\<open>Project.find().sort({ order: 1, createdAt: -1 })\<close>.\<close>

definition get_projects :: "'a doc_scheme list \<Rightarrow> 'a doc_scheme list response" where
  "get_projects docs = Response 200 (Data (sort_docs by_order_createdAt docs))"

text \<open>
  \<^verbatim>\<open>PUT /api/<collection>/:id\<close> for the seven collections other than the blog. \<open>cast\<close>
  is the schema of the collection at work on the request body: the update it stands
  for, or the CastError thrown for a value that cannot be cast to its field's type
  (thrown before the store is asked, and caught by the handler).
\<close>

definition put_handler ::
  "('b \<Rightarrow> error + ('a doc_scheme \<Rightarrow> 'a doc_scheme)) \<Rightarrow> int \<Rightarrow> nat \<Rightarrow> 'b \<Rightarrow>
   'a doc_scheme list \<Rightarrow> 'a doc_scheme response \<times> 'a doc_scheme list"
where
  "put_handler cast now i body docs =
     (case cast body of
        Inl e \<Rightarrow> (Response 400 (ErrorMessage e), docs)
      | Inr upd \<Rightarrow>
          (case findByIdAndUpdate now docs i upd of
             (None, docs') \<Rightarrow> (Response 404 (Message ''Not found''), docs)
           | (Some d, docs') \<Rightarrow> (Response 200 (Data d), docs')))"

text \<open>
  \<^verbatim>\<open>POST /api/<collection>\<close> for the same collections: \<^verbatim>\<open>new Model(req.body).save()\<close>.
  \<open>construct\<close> is the schema at work on the body: the document with its defaults, the
  fresh id and the timestamps, or the error that validation throws.
\<close>

definition post_handler ::
  "('b \<Rightarrow> nat \<Rightarrow> int \<Rightarrow> error + 'a doc_scheme) \<Rightarrow> int \<Rightarrow> nat \<Rightarrow> 'b \<Rightarrow>
   'a doc_scheme list \<Rightarrow> 'a doc_scheme response \<times> 'a doc_scheme list"
where
  "post_handler construct now new_id body docs =
     (case construct body new_id now of
        Inl e \<Rightarrow> (Response 400 (ErrorMessage e), docs)
      | Inr d \<Rightarrow> (Response 201 (Data d), docs @ [d]))"

text \<open>\<^verbatim>\<open>DELETE /api/<collection>/:id\<close>, the blog included: \<^verbatim>\<open>Model.findByIdAndDelete\<close>.\<close>

definition delete_handler ::
  "nat \<Rightarrow> 'a doc_scheme list \<Rightarrow> 'a doc_scheme response \<times> 'a doc_scheme list"
where
  "delete_handler i docs =
     (case findById docs i of
        None \<Rightarrow> (Response 404 (Message ''Not found''), docs)
      | Some d \<Rightarrow> (Response 200 (Message ''Deleted''), remove1 d docs))"

text \<open>
  Every route that writes is registered as \<^verbatim>\<open>app.METHOD(path, authMiddleware, handler)\<close>
  (the upload route has multer between the two), after the body parsers and the rate
  limiter: a request reaches \<^verbatim>\<open>authMiddleware\<close> when the parsers have accepted its body
  and the limiter has let it pass.
\<close>

definition post_route ::
  "(string \<Rightarrow> bool) \<Rightarrow> string option \<Rightarrow> 'b request_body \<Rightarrow> bool \<Rightarrow>
   ('b \<Rightarrow> nat \<Rightarrow> int \<Rightarrow> error + 'a doc_scheme) \<Rightarrow>
   int \<Rightarrow> nat \<Rightarrow> 'a doc_scheme list \<Rightarrow> 'a doc_scheme response \<times> 'a doc_scheme list"
where
  "post_route jwt_verify authorization body exceeded construct now new_id =
     express_json body
       (\<lambda>b. limiter exceeded
          (authMiddleware jwt_verify authorization (post_handler construct now new_id b)))"

definition delete_route ::
  "(string \<Rightarrow> bool) \<Rightarrow> string option \<Rightarrow> 'b request_body \<Rightarrow> bool \<Rightarrow> nat \<Rightarrow>
   'a doc_scheme list \<Rightarrow> 'a doc_scheme response \<times> 'a doc_scheme list"
where
  "delete_route jwt_verify authorization body exceeded i =
     express_json body
       (\<lambda>b. limiter exceeded (authMiddleware jwt_verify authorization (delete_handler i)))"

definition put_route ::
  "(string \<Rightarrow> bool) \<Rightarrow> string option \<Rightarrow> 'b request_body \<Rightarrow> bool \<Rightarrow>
   ('b \<Rightarrow> error + ('a doc_scheme \<Rightarrow> 'a doc_scheme)) \<Rightarrow>
   int \<Rightarrow> nat \<Rightarrow> 'a doc_scheme list \<Rightarrow> 'a doc_scheme response \<times> 'a doc_scheme list"
where
  "put_route jwt_verify authorization body exceeded cast now i =
     express_json body
       (\<lambda>b. limiter exceeded
          (authMiddleware jwt_verify authorization (put_handler cast now i b)))"

subsection \<open>Batch reorder\<close>

text \<open>
  An item \<^verbatim>\<open>{id, order}\<close> of the request body. Each value either casts to the type the
  schema wants (an ObjectId, a Number) or does not, and then the update of that item is
  rejected with a CastError.
\<close>

datatype 'a json_field = Castable 'a | Uncastable

record reorder_item =
  item_id :: "nat json_field"
  item_order :: "int json_field"

text \<open>
  \<^verbatim>\<open>Model.findByIdAndUpdate(item.id, { order: item.order })\<close>: the outcome (an error, or
  none) and the collection afterwards. An id that no document has is no error: the
  promise resolves to null.
\<close>

definition update_order ::
  "int \<Rightarrow> reorder_item \<Rightarrow> 'a doc_scheme list \<Rightarrow> error option \<times> 'a doc_scheme list"
where
  "update_order now item docs =
     (case (item_id item, item_order item) of
        (Castable i, Castable n) \<Rightarrow>
          (None, snd (findByIdAndUpdate now docs i (\<lambda>d. d\<lparr>order := n\<rparr>)))
      | _ \<Rightarrow> (Some CastError, docs))"

text \<open>
  \<^verbatim>\<open>items.map(item => Model.findByIdAndUpdate(...))\<close>: one update per item, each started
  whatever becomes of the others. The model runs them in the order of the list (the
  server leaves the order to the store).
\<close>

fun update_orders ::
  "int \<Rightarrow> reorder_item list \<Rightarrow> 'a doc_scheme list \<Rightarrow> error option list \<times> 'a doc_scheme list"
where
  "update_orders now [] docs = ([], docs)"
| "update_orders now (item # items) docs =
     (case update_order now item docs of
        (outcome, docs') \<Rightarrow>
          (case update_orders now items docs' of
             (outcomes, docs'') \<Rightarrow> (outcome # outcomes, docs'')))"

text \<open>
  \<^verbatim>\<open>PUT /api/<collection>/reorder\<close>. \<^verbatim>\<open>await Promise.all(...)\<close> throws when one of the
  updates is rejected, and the handler answers 400 with that error's message; nothing
  undoes the updates that went through. A body without \<^verbatim>\<open>items\<close> makes
  \<^verbatim>\<open>items.map\<close> throw a TypeError.
\<close>

definition reorder_handler ::
  "int \<Rightarrow> reorder_item list option \<Rightarrow> 'a doc_scheme list \<Rightarrow> unit response \<times> 'a doc_scheme list"
where
  "reorder_handler now items docs =
     (case items of
        None \<Rightarrow> (Response 400 (ErrorMessage TypeError), docs)
      | Some its \<Rightarrow>
          (case update_orders now its docs of
             (outcomes, docs') \<Rightarrow>
               (case find (\<lambda>outcome. outcome \<noteq> None) outcomes of
                  Some (Some e) \<Rightarrow> (Response 400 (ErrorMessage e), docs')
                | _ \<Rightarrow> (Response 200 (Message ''Updated''), docs'))))"

text \<open>The body of a reorder request, once parsed, is its \<^verbatim>\<open>items\<close>, if it has any.\<close>

definition reorder_route ::
  "(string \<Rightarrow> bool) \<Rightarrow> string option \<Rightarrow> reorder_item list option request_body \<Rightarrow> bool \<Rightarrow>
   int \<Rightarrow> 'a doc_scheme list \<Rightarrow> unit response \<times> 'a doc_scheme list"
where
  "reorder_route jwt_verify authorization body exceeded now =
     express_json body
       (\<lambda>items. limiter exceeded
          (authMiddleware jwt_verify authorization (reorder_handler now items)))"

subsection \<open>Experience\<close>

text \<open>\<^verbatim>\<open>experienceSchema\<close>. Its \<^verbatim>\<open>title\<close> is written \<open>title'\<close>: the blog post's keeps the name.\<close>

record experience = doc +
  title' :: string
  company :: string
  logoUrl :: string
  location :: string
  startDate :: string
  endDate :: string
  description :: string
  achievements :: "string list"
  technologies :: "string list"
  type :: string
  featured :: bool

text \<open>\<^verbatim>\<open>.sort({ order: 1, startDate: -1 })\<close>; \<^verbatim>\<open>startDate\<close> is a String, compared as one.\<close>

definition by_order_startDate :: "experience \<Rightarrow> experience \<Rightarrow> bool" where
  "by_order_startDate a b =
     (order a < order b \<or> (order a = order b \<and> startDate b \<le> startDate a))"

text \<open>
  \<^verbatim>\<open>GET /api/experience\<close>: \<^verbatim>\<open>req.query.type ? { type: req.query.type } : {}\<close> is the
  empty query for a missing and for an empty parameter.
\<close>

definition get_experience :: "string option \<Rightarrow> experience list \<Rightarrow> experience list response" where
  "get_experience query_type docs =
     (let found = (case query_type of
                     None \<Rightarrow> docs
                   | Some t \<Rightarrow> if t = [] then docs else filter (\<lambda>d. type d = t) docs)
      in Response 200 (Data (sort_docs by_order_startDate found)))"

subsection \<open>Blog posts\<close>

text \<open>
  \<^verbatim>\<open>blogPostSchema\<close>. Its strings are JavaScript strings. \<^verbatim>\<open>publishedAt\<close> has no default:
  \<open>None\<close> until it is set. The schema lets \<^verbatim>\<open>published\<close> be set to null; every condition
  and every filter of the server reads null as false, and the model stores it so.
\<close>

record blog_post = doc +
  title :: jsstring
  slug :: jsstring
  content :: jsstring
  excerpt :: jsstring
  coverImage :: jsstring
  tags :: "jsstring list"
  published :: bool
  publishedAt :: "int option"

text \<open>
  The values a field of \<^verbatim>\<open>req.body\<close> can hold: what \<^verbatim>\<open>JSON.parse\<close> gives (null, a boolean,
  a number, a string, an array or object) and the \<^verbatim>\<open>Date\<close> that the update route puts
  there itself. Numbers are the integral ones; a date is its milliseconds.
\<close>

datatype jsvalue =
    JNull
  | JBool bool
  | JNumber int
  | JString jsstring
  | JDate int
  | JObject

text \<open>
  The value as a condition (\<^verbatim>\<open>if (v)\<close>, \<^verbatim>\<open>!v\<close>, \<^verbatim>\<open>v && ...\<close>): null, \<^verbatim>\<open>false\<close>, 0 and the
  empty string are falsy, every other value is truthy, the string \<^verbatim>\<open>"false"\<close> and every
  object included. A field the body does not have reads \<^verbatim>\<open>undefined\<close>, which is falsy.
\<close>

fun truthy :: "jsvalue \<Rightarrow> bool" where
  "truthy JNull = False"
| "truthy (JBool b) = b"
| "truthy (JNumber n) = (n \<noteq> 0)"
| "truthy (JString s) = (s \<noteq> [])"
| "truthy (JDate t) = True"
| "truthy JObject = True"

definition truthy_field :: "jsvalue option \<Rightarrow> bool" where
  "truthy_field field = (case field of None \<Rightarrow> False | Some v \<Rightarrow> truthy v)"

text \<open>
  The JSON body of a blog request. The two fields that the routes themselves read,
  \<^verbatim>\<open>req.body.published\<close> and \<^verbatim>\<open>req.body.publishedAt\<close>, are the values as parsed; the other
  fields, which only the schema reads, are given as it casts them to their types. A
  field is \<open>None\<close> when the body does not have it.
\<close>

record blog_body =
  body_title :: "jsstring option"
  body_slug :: "jsstring option"
  body_content :: "jsstring option"
  body_excerpt :: "jsstring option"
  body_coverImage :: "jsstring option"
  body_tags :: "jsstring list option"
  body_published :: "jsvalue option"
  body_publishedAt :: "jsvalue option"
  body_order :: "int option"

text \<open>
  The schema casts a value to the type of its field, for a new document and for an
  update alike; the result may be null (\<open>None\<close>). A Boolean field takes \<^verbatim>\<open>true\<close>,
  \<^verbatim>\<open>'true'\<close>, 1, \<^verbatim>\<open>'1'\<close> and \<^verbatim>\<open>'yes'\<close> as true, \<^verbatim>\<open>false\<close>, \<^verbatim>\<open>'false'\<close>, 0, \<^verbatim>\<open>'0'\<close> and
  \<^verbatim>\<open>'no'\<close> as false, null as null, and nothing else.
\<close>

definition castBoolean :: "jsvalue \<Rightarrow> error + bool option" where
  "castBoolean v =
     (case v of
        JNull \<Rightarrow> Inr None
      | JBool b \<Rightarrow> Inr (Some b)
      | JNumber n \<Rightarrow>
          if n = 1 then Inr (Some True) else if n = 0 then Inr (Some False) else Inl CastError
      | JString s \<Rightarrow>
          if s = js ''true'' \<or> s = js ''1'' \<or> s = js ''yes'' then Inr (Some True)
          else if s = js ''false'' \<or> s = js ''0'' \<or> s = js ''no'' then Inr (Some False)
          else Inl CastError
      | JDate t \<Rightarrow> Inl CastError
      | JObject \<Rightarrow> Inl CastError)"

text \<open>
  A Date field: a \<^verbatim>\<open>Date\<close> is itself and null is null. \<open>toDate\<close> stands for what the
  library makes of the other values: the date that \<^verbatim>\<open>new Date(value)\<close> is for a value
  that gives one, null for the empty string, a CastError for the rest.
\<close>

definition castDate :: "(jsvalue \<Rightarrow> error + int option) \<Rightarrow> jsvalue \<Rightarrow> error + int option" where
  "castDate toDate v =
     (case v of
        JDate t \<Rightarrow> Inr (Some t)
      | JNull \<Rightarrow> Inr None
      | _ \<Rightarrow> toDate v)"

text \<open>A field of the body, cast: \<open>None\<close> when the body does not have the field.\<close>

definition cast_field :: "(jsvalue \<Rightarrow> error + 'a option) \<Rightarrow> jsvalue option \<Rightarrow> error + 'a option option" where
  "cast_field cast field =
     (case field of
        None \<Rightarrow> Inr None
      | Some v \<Rightarrow> (case cast v of Inl e \<Rightarrow> Inl e | Inr c \<Rightarrow> Inr (Some c)))"

text \<open>The flag as it is stored: null reads false.\<close>

definition stored_flag :: "bool option \<Rightarrow> bool" where
  "stored_flag c = (case c of None \<Rightarrow> False | Some b \<Rightarrow> b)"

definition or_default :: "'a option \<Rightarrow> 'a \<Rightarrow> 'a" where
  "or_default field d = (case field of None \<Rightarrow> d | Some v \<Rightarrow> v)"

text \<open>The cast of a field of the body fails.\<close>

definition cast_fails :: "(jsvalue \<Rightarrow> error + 'a option) \<Rightarrow> jsvalue option \<Rightarrow> bool" where
  "cast_fails cast field = (case cast_field cast field of Inl e \<Rightarrow> True | Inr c \<Rightarrow> False)"

text \<open>
  \<^verbatim>\<open>new BlogPost(req.body)\<close>: the fields of the body, the schema's defaults for the
  others, a fresh \<^verbatim>\<open>_id\<close>. The setters of the schema run on the values: \<^verbatim>\<open>trim: true\<close>
  (\<^verbatim>\<open>String.prototype.trim\<close>) on the title and the tags, \<^verbatim>\<open>lowercase: true\<close> on the slug;
  \<open>lowercase\<close> stands for \<^verbatim>\<open>String.prototype.toLowerCase\<close> on arbitrary strings. A
  required string the body lacks is the empty string here (both fail the \<^verbatim>\<open>required\<close>
  validator). A value that cannot be cast leaves its field as a body without it does; the
  constructor does not throw, it marks the field invalid for the validation to come.
  The timestamps are set by \<^verbatim>\<open>save\<close>.
\<close>

definition new_BlogPost ::
  "(jsvalue \<Rightarrow> error + int option) \<Rightarrow> (jsstring \<Rightarrow> jsstring) \<Rightarrow> nat \<Rightarrow> blog_body \<Rightarrow> blog_post"
where
  "new_BlogPost toDate lowercase new_id body =
     \<lparr>oid = new_id, order = or_default (body_order body) 0, createdAt = 0, updatedAt = 0,
      title = or_default (map_option trim (body_title body)) [],
      slug = or_default (map_option lowercase (body_slug body)) [],
      content = or_default (body_content body) [],
      excerpt = or_default (body_excerpt body) [],
      coverImage = or_default (body_coverImage body) [],
      tags = map trim (or_default (body_tags body) []),
      published = (case cast_field castBoolean (body_published body) of
                     Inr (Some c) \<Rightarrow> stored_flag c
                   | _ \<Rightarrow> False),
      publishedAt = (case cast_field (castDate toDate) (body_publishedAt body) of
                       Inr (Some d) \<Rightarrow> d
                     | _ \<Rightarrow> None)\<rparr>"

text \<open>The validators of the schema: four required strings, and \<^verbatim>\<open>maxLength: 200\<close>.\<close>

definition valid_post :: "blog_post \<Rightarrow> bool" where
  "valid_post p =
     (title p \<noteq> [] \<and> slug p \<noteq> [] \<and> content p \<noteq> [] \<and> excerpt p \<noteq> []
      \<and> length (excerpt p) \<le> 200)"

text \<open>
  \<^verbatim>\<open>post.save()\<close>: validation, then the insert, which the unique index on \<^verbatim>\<open>slug\<close>
  refuses for a slug that is taken.
\<close>

definition save :: "int \<Rightarrow> blog_post \<Rightarrow> blog_post list \<Rightarrow> error + blog_post \<times> blog_post list" where
  "save now p posts =
     (if \<not> valid_post p then Inl ValidationError
      else if slug p \<in> slug ` set posts then Inl DuplicateKey
      else Inr (p\<lparr>createdAt := now, updatedAt := now\<rparr>,
                posts @ [p\<lparr>createdAt := now, updatedAt := now\<rparr>]))"

text \<open>
  \<^verbatim>\<open>POST /api/blog\<close>:
  \<^verbatim>\<open>if (post.published && !post.publishedAt) post.publishedAt = new Date()\<close> reads the
  document, whose fields are cast: a date that is set is a \<^verbatim>\<open>Date\<close>, and truthy. A field
  that the constructor has marked invalid makes \<^verbatim>\<open>save()\<close> fail with a ValidationError,
  unless the field has been assigned a value since, as \<^verbatim>\<open>publishedAt\<close> is by this
  statement.
\<close>

definition post_blog_handler ::
  "(jsvalue \<Rightarrow> error + int option) \<Rightarrow> (jsstring \<Rightarrow> jsstring) \<Rightarrow> int \<Rightarrow> nat \<Rightarrow> blog_body \<Rightarrow>
   blog_post list \<Rightarrow> blog_post response \<times> blog_post list"
where
  "post_blog_handler toDate lowercase now new_id body posts =
     (let post = new_BlogPost toDate lowercase new_id body;
          stamp = (published post \<and> publishedAt post = None);
          post' = (if stamp then post\<lparr>publishedAt := Some now\<rparr> else post)
      in if cast_fails castBoolean (body_published body)
            \<or> (cast_fails (castDate toDate) (body_publishedAt body) \<and> \<not> stamp)
         then (Response 400 (ErrorMessage ValidationError), posts)
         else (case save now post' posts of
                 Inl e \<Rightarrow> (Response 400 (ErrorMessage e), posts)
               | Inr (saved, posts') \<Rightarrow> (Response 201 (Data saved), posts')))"

definition post_blog_route ::
  "(string \<Rightarrow> bool) \<Rightarrow> (jsvalue \<Rightarrow> error + int option) \<Rightarrow> (jsstring \<Rightarrow> jsstring) \<Rightarrow>
   string option \<Rightarrow> blog_body request_body \<Rightarrow> bool \<Rightarrow> int \<Rightarrow> nat \<Rightarrow> blog_post list \<Rightarrow>
   blog_post response \<times> blog_post list"
where
  "post_blog_route jwt_verify toDate lowercase authorization body exceeded now new_id =
     express_json body
       (\<lambda>b. limiter exceeded
          (authMiddleware jwt_verify authorization (post_blog_handler toDate lowercase now new_id b)))"

text \<open>
  The first statements of \<^verbatim>\<open>PUT /api/blog/:id\<close>:
  \<^verbatim>\<open>if (req.body.published && !was.published && !req.body.publishedAt) req.body.publishedAt = new Date()\<close>.
  The two fields of the body are read as they were parsed. \<open>was\<close> is the result of
  \<^verbatim>\<open>findById\<close>, null when no post has the id; the condition reads \<^verbatim>\<open>was.published\<close> once
  \<^verbatim>\<open>req.body.published\<close> is truthy, and reading a property of null throws a TypeError.
\<close>

definition stamp_publishedAt :: "int \<Rightarrow> blog_post option \<Rightarrow> blog_body \<Rightarrow> error + blog_body" where
  "stamp_publishedAt now was body =
     (if truthy_field (body_published body) then
        (case was of
           None \<Rightarrow> Inl TypeError
         | Some w \<Rightarrow>
             if \<not> published w \<and> \<not> truthy_field (body_publishedAt body)
             then Inr (body\<lparr>body_publishedAt := Some (JDate now)\<rparr>)
             else Inr body)
      else Inr body)"

text \<open>
  The update a body stands for: each field it has replaces the document's, cast and
  passed through the setters. \<open>flag\<close> and \<open>date\<close> are \<^verbatim>\<open>published\<close> and \<^verbatim>\<open>publishedAt\<close>
  as cast.
\<close>

definition set_fields ::
  "(jsstring \<Rightarrow> jsstring) \<Rightarrow> bool option option \<Rightarrow> int option option \<Rightarrow> blog_body \<Rightarrow>
   blog_post \<Rightarrow> blog_post"
where
  "set_fields lowercase flag date body p =
     p\<lparr>order := or_default (body_order body) (order p),
       title := or_default (map_option trim (body_title body)) (title p),
       slug := or_default (map_option lowercase (body_slug body)) (slug p),
       content := or_default (body_content body) (content p),
       excerpt := or_default (body_excerpt body) (excerpt p),
       coverImage := or_default (body_coverImage body) (coverImage p),
       tags := or_default (map_option (map trim) (body_tags body)) (tags p),
       published := (case flag of None \<Rightarrow> published p | Some c \<Rightarrow> stored_flag c),
       publishedAt := (case date of None \<Rightarrow> publishedAt p | Some d \<Rightarrow> d)\<rparr>"

text \<open>
  \<^verbatim>\<open>BlogPost.findByIdAndUpdate(req.params.id, req.body, { new: true })\<close>: the body is
  cast first, and a value that cannot be cast is a CastError thrown before the store is
  asked; then as for every collection, and the unique index refuses a slug that another
  post has.
\<close>

definition update_post ::
  "(jsvalue \<Rightarrow> error + int option) \<Rightarrow> (jsstring \<Rightarrow> jsstring) \<Rightarrow> int \<Rightarrow> blog_post list \<Rightarrow> nat \<Rightarrow>
   blog_body \<Rightarrow> error + blog_post option \<times> blog_post list"
where
  "update_post toDate lowercase now posts i body =
     (case cast_field castBoolean (body_published body) of
        Inl e \<Rightarrow> Inl e
      | Inr flag \<Rightarrow>
          (case cast_field (castDate toDate) (body_publishedAt body) of
             Inl e \<Rightarrow> Inl e
           | Inr date \<Rightarrow>
               if findById posts i \<noteq> None
                  \<and> (\<exists>p \<in> set posts. oid p \<noteq> i
                        \<and> Some (slug p) = map_option lowercase (body_slug body))
               then Inl DuplicateKey
               else Inr (findByIdAndUpdate now posts i (set_fields lowercase flag date body))))"

text \<open>\<^verbatim>\<open>PUT /api/blog/:id\<close>: every exception is caught and answered 400.\<close>

definition put_blog_handler ::
  "(jsvalue \<Rightarrow> error + int option) \<Rightarrow> (jsstring \<Rightarrow> jsstring) \<Rightarrow> int \<Rightarrow> nat \<Rightarrow> blog_body \<Rightarrow>
   blog_post list \<Rightarrow> blog_post response \<times> blog_post list"
where
  "put_blog_handler toDate lowercase now i body posts =
     (case stamp_publishedAt now (findById posts i) body of
        Inl e \<Rightarrow> (Response 400 (ErrorMessage e), posts)
      | Inr body' \<Rightarrow>
          (case update_post toDate lowercase now posts i body' of
             Inl e \<Rightarrow> (Response 400 (ErrorMessage e), posts)
           | Inr (None, posts') \<Rightarrow> (Response 404 (Message ''Not found''), posts)
           | Inr (Some post, posts') \<Rightarrow> (Response 200 (Data post), posts')))"

definition put_blog_route ::
  "(string \<Rightarrow> bool) \<Rightarrow> (jsvalue \<Rightarrow> error + int option) \<Rightarrow> (jsstring \<Rightarrow> jsstring) \<Rightarrow>
   string option \<Rightarrow> blog_body request_body \<Rightarrow> bool \<Rightarrow> int \<Rightarrow> nat \<Rightarrow> blog_post list \<Rightarrow>
   blog_post response \<times> blog_post list"
where
  "put_blog_route jwt_verify toDate lowercase authorization body exceeded now i =
     express_json body
       (\<lambda>b. limiter exceeded
          (authMiddleware jwt_verify authorization (put_blog_handler toDate lowercase now i b)))"

text \<open>A date that is missing sorts before every date.\<close>

fun date_le :: "int option \<Rightarrow> int option \<Rightarrow> bool" where
  "date_le None y = True"
| "date_le (Some x) None = False"
| "date_le (Some x) (Some y) = (x \<le> y)"

text \<open>\<^verbatim>\<open>.sort({ publishedAt: -1 })\<close> and \<^verbatim>\<open>.sort({ createdAt: -1 })\<close>\<close>

definition by_publishedAt :: "blog_post \<Rightarrow> blog_post \<Rightarrow> bool" where
  "by_publishedAt a b = date_le (publishedAt b) (publishedAt a)"

definition by_createdAt :: "blog_post \<Rightarrow> blog_post \<Rightarrow> bool" where
  "by_createdAt a b = (createdAt b \<le> createdAt a)"

text \<open>What a blog GET route sends: one post or a list of posts.\<close>

datatype blog_data = Post blog_post | Posts "blog_post list"

text \<open>\<^verbatim>\<open>GET /api/blog\<close>: \<^verbatim>\<open>BlogPost.find({ published: true }).sort({ publishedAt: -1 })\<close>\<close>

definition get_blog :: "blog_post list \<Rightarrow> blog_data response" where
  "get_blog posts = Response 200 (Data (Posts (sort_docs by_publishedAt (filter published posts))))"

text \<open>\<^verbatim>\<open>GET /api/blog/all\<close>, behind the authentication middleware.\<close>

definition get_blog_all_handler :: "blog_post list \<Rightarrow> blog_data response \<times> blog_post list" where
  "get_blog_all_handler posts = (Response 200 (Data (Posts (sort_docs by_createdAt posts))), posts)"

text \<open>
  \<^verbatim>\<open>GET /api/blog/:slug\<close>: \<^verbatim>\<open>BlogPost.findOne({ slug: req.params.slug, published: true })\<close>.
  The filter is cast by the schema, whose setter puts the slug in lower case.
\<close>

definition get_blog_slug_handler ::
  "(jsstring \<Rightarrow> jsstring) \<Rightarrow> jsstring \<Rightarrow> blog_post list \<Rightarrow> blog_data response"
where
  "get_blog_slug_handler lowercase s posts =
     (case find (\<lambda>p. slug p = lowercase s \<and> published p) posts of
        None \<Rightarrow> Response 404 (Message ''Not found'')
      | Some post \<Rightarrow> Response 200 (Data (Post post)))"

text \<open>
  How the router matches the path of a request with the paths of the routes. It
  compiles each path to a regular expression with the \<^verbatim>\<open>i\<close> flag that allows one slash
  at the end: \<^verbatim>\<open>/api/blog/all\<close> to \<^verbatim>\<open>^\/api\/blog\/all\/?$\<close> and \<^verbatim>\<open>/api/blog/:slug\<close> to
  \<^verbatim>\<open>^\/api\/blog\/(?:([^\/]+?))\/?$\<close>, and matches the path as the request has it,
  escapes not decoded. Under the \<^verbatim>\<open>i\<close> flag a letter of the route matches itself in
  upper and in lower case, and nothing else.
\<close>

definition lower_char :: "char \<Rightarrow> char" where
  "lower_char c =
     (case map_of (zip ''ABCDEFGHIJKLMNOPQRSTUVWXYZ'' ''abcdefghijklmnopqrstuvwxyz'') c of
        None \<Rightarrow> c
      | Some l \<Rightarrow> l)"

definition matches_all :: "string \<Rightarrow> bool" where
  "matches_all segment = (map lower_char segment = ''all'')"

text \<open>What is left of the path once the slash at its end, if it has one, is taken off.\<close>

definition segment_of :: "string \<Rightarrow> string" where
  "segment_of rest = (if rest \<noteq> [] \<and> last rest = CHR ''/'' then butlast rest else rest)"

text \<open>
  The three GET routes under \<^verbatim>\<open>/api/blog\<close>, in the order the server registers them:
  \<^verbatim>\<open>/api/blog\<close>, \<^verbatim>\<open>/api/blog/all\<close>, \<^verbatim>\<open>/api/blog/:slug\<close>, behind the body parsers and the
  rate limiter. \<open>rest\<close> is what the path of the request has after \<^verbatim>\<open>/api/blog/\<close> (nothing
  for \<^verbatim>\<open>/api/blog\<close> and \<^verbatim>\<open>/api/blog/\<close>). The first route whose path matches handles the
  request; the middleware of the second route answers a request it rejects, so such a
  request never reaches the third. The third route takes one segment that is not empty
  and has no slash in it, and its handler gets the segment decoded:
  \<open>decodeURIComponent\<close> is the function of that name, \<open>None\<close> when it throws, and then the
  error goes to the error-handling middleware. A path that no route takes is answered
  by Express itself.
\<close>

definition get_blog_routes ::
  "(string \<Rightarrow> bool) \<Rightarrow> (jsstring \<Rightarrow> jsstring) \<Rightarrow> (string \<Rightarrow> jsstring option) \<Rightarrow> string option \<Rightarrow>
   'b request_body \<Rightarrow> bool \<Rightarrow> string \<Rightarrow> blog_post list \<Rightarrow> blog_data response \<times> blog_post list"
where
  "get_blog_routes jwt_verify lowercase decodeURIComponent authorization body exceeded rest =
     express_json body
       (\<lambda>b. limiter exceeded
          (\<lambda>posts.
             if rest = [] then (get_blog posts, posts)
             else if segment_of rest = [] \<or> CHR ''/'' \<in> set (segment_of rest)
             then (Response 404 Page, posts)
             else if matches_all (segment_of rest)
             then authMiddleware jwt_verify authorization get_blog_all_handler posts
             else (case decodeURIComponent (segment_of rest) of
                     None \<Rightarrow> (error_handler URIError, posts)
                   | Some s \<Rightarrow> (get_blog_slug_handler lowercase s posts, posts))))"

text \<open>
  The assignments of a batch that the schema can cast, as pairs of an id and an order,
  and the effect of one item on one document: the states of a document during a batch
  are described with them.
\<close>

definition assignments :: "reorder_item list \<Rightarrow> (nat \<times> int) list" where
  "assignments items =
     concat (map (\<lambda>item. case (item_id item, item_order item) of
                            (Castable i, Castable n) \<Rightarrow> [(i, n)]
                          | _ \<Rightarrow> []) items)"

definition touched :: "int \<Rightarrow> reorder_item \<Rightarrow> 'a doc_scheme \<Rightarrow> 'a doc_scheme" where
  "touched now item d =
     (case (item_id item, item_order item) of
        (Castable i, Castable n) \<Rightarrow> if oid d = i then d\<lparr>order := n, updatedAt := now\<rparr> else d
      | _ \<Rightarrow> d)"

subsection \<open>Sample documents and requests\<close>

definition sample_doc :: doc where
  "sample_doc = \<lparr>oid = 7, order = 0, createdAt = 10, updatedAt = 10\<rparr>"

definition other_doc :: doc where
  "other_doc = \<lparr>oid = 8, order = 1, createdAt = 11, updatedAt = 11\<rparr>"

definition good_item :: reorder_item where
  "good_item = \<lparr>item_id = Castable 7, item_order = Castable 3\<rparr>"

definition bad_item :: reorder_item where
  "bad_item = \<lparr>item_id = Castable 8, item_order = Uncastable\<rparr>"

definition draft_post :: blog_post where
  "draft_post =
     \<lparr>oid = 1, order = 0, createdAt = 10, updatedAt = 10,
      title = js ''Draft'', slug = js ''draft'', content = js ''text'', excerpt = js ''short'',
      coverImage = [], tags = [], published = False, publishedAt = None\<rparr>"

definition live_post :: blog_post where
  "live_post =
     \<lparr>oid = 2, order = 0, createdAt = 20, updatedAt = 20,
      title = js ''All'', slug = js ''all'', content = js ''text'', excerpt = js ''short'',
      coverImage = [], tags = [], published = True, publishedAt = Some 20\<rparr>"

definition hello_post :: blog_post where
  "hello_post =
     \<lparr>oid = 4, order = 0, createdAt = 30, updatedAt = 30,
      title = js ''Hello'', slug = js ''hello'', content = js ''text'', excerpt = js ''short'',
      coverImage = [], tags = [], published = True, publishedAt = Some 30\<rparr>"

definition empty_body :: blog_body where
  "empty_body =
     \<lparr>body_title = None, body_slug = None, body_content = None, body_excerpt = None,
      body_coverImage = None, body_tags = None, body_published = None,
      body_publishedAt = None, body_order = None\<rparr>"

definition publish_body :: blog_body where
  "publish_body = empty_body\<lparr>body_published := Some (JBool True)\<rparr>"



text \<open>
  The library functions on the values of the sample requests: the date of a number is
  the date that many milliseconds after the epoch; the sample slugs are ASCII, where
  \<^verbatim>\<open>String.prototype.toLowerCase\<close> is \<open>toLowerCase\<close> above; and \<^verbatim>\<open>decodeURIComponent\<close> on
  the path segments of the sample requests, which are ASCII and have no escape but
  \<^verbatim>\<open>%61\<close>, the letter a (a segment with another escape is not among them, and refused).
\<close>

definition sample_toDate :: "jsvalue \<Rightarrow> error + int option" where
  "sample_toDate v = (case v of JNumber n \<Rightarrow> Inr (Some n) | _ \<Rightarrow> Inl CastError)"

definition sample_decode :: "string \<Rightarrow> jsstring option" where
  "sample_decode segment =
     (if segment = ''%61ll'' then Some (js ''all'')
      else if CHR ''%'' \<in> set segment then None
      else Some (js segment))"

section \<open>Properties of the authentication middleware\<close>

lemma bearer_token_examples:
  "bearer_token None = None"
  "bearer_token (Some ''Bearer'') = None"
  "bearer_token (Some ''Bearer '') = Some []"
  "bearer_token (Some ''Bearer abc'') = Some ''abc''"
  by (simp_all add: bearer_token_def element_at_def)

lemma past_middleware:
  "express_json (Parsed b) (\<lambda>b. limiter False (route b)) s = route b s"
  by (simp add: express_json_def limiter_def)

lemma authMiddleware_no_token:
  "bearer_token authorization = None \<or> bearer_token authorization = Some [] \<Longrightarrow>
   authMiddleware jwt_verify authorization handler s = (Response 401 (Message ''No token''), s)"
  by (auto simp: authMiddleware_def)

lemma authMiddleware_invalid_token:
  "bearer_token authorization = Some t \<Longrightarrow> t \<noteq> [] \<Longrightarrow> \<not> jwt_verify t \<Longrightarrow>
   authMiddleware jwt_verify authorization handler s = (Response 401 (Message ''Invalid token''), s)"
  by (simp add: authMiddleware_def)

text \<open>
  C6, as stated: a missing, a malformed and an invalid token are all answered 401 with
  the same response body. The status is 401 in each case, but the body is not the same:
  a request with no Authorization header is told \<^verbatim>\<open>No token\<close>, a request whose token
  fails verification is told \<^verbatim>\<open>Invalid token\<close>. And a request whose body the parsers
  refuse is answered 500 before any route looks at its token.
\<close>

theorem C6_same_body_counterexample:
  "fst (reorder_route sample_verify None (Parsed (Some [good_item])) False 100 [sample_doc])
     = Response 401 (Message ''No token'')
   \<and> fst (reorder_route sample_verify (Some ''Bearer expired'') (Parsed (Some [good_item])) False 100
        [sample_doc])
     = Response 401 (Message ''Invalid token'')
   \<and> fst (reorder_route sample_verify None Refused False 100 [sample_doc])
     = Response 500 (Message ''Error!'')"
  by (simp add: reorder_route_def express_json_def limiter_def error_handler_def authMiddleware_def
      bearer_token_def element_at_def sample_verify_def)

text \<open>
  C6, amended: for every write route (create, update and delete of the collections and
  of the blog, reorder, upload) and every request to it that the body parsers accept and
  the rate limiter lets pass: a request from which no token can be read (no
  Authorization header, or nothing or an empty piece after the first space) is answered
  401 with message \<^verbatim>\<open>No token\<close>, a request whose token fails verification (for any
  reason: the three are not told apart) is answered 401 with message \<^verbatim>\<open>Invalid token\<close>,
  and in both cases the handler does not run and the store is unchanged. A request
  whose body the parsers refuse is answered 500 with message \<^verbatim>\<open>Error!\<close>, and one over the
  rate limit 429 with message \<^verbatim>\<open>Too many requests\<close>, whatever its token.
\<close>

theorem C6_auth_rejects_401:
  "(bearer_token authorization = None \<or> bearer_token authorization = Some [] \<longrightarrow>
      post_route jwt_verify authorization (Parsed b) False construct now new_id docs
        = (Response 401 (Message ''No token''), docs)
      \<and> put_route jwt_verify authorization (Parsed b) False cast now i docs
        = (Response 401 (Message ''No token''), docs)
      \<and> delete_route jwt_verify authorization (Parsed b) False i docs
        = (Response 401 (Message ''No token''), docs)
      \<and> reorder_route jwt_verify authorization (Parsed items) False now docs
        = (Response 401 (Message ''No token''), docs)
      \<and> post_blog_route jwt_verify toDate lowercase authorization (Parsed body) False now new_id posts
        = (Response 401 (Message ''No token''), posts)
      \<and> put_blog_route jwt_verify toDate lowercase authorization (Parsed body) False now i posts
        = (Response 401 (Message ''No token''), posts)
      \<and> upload_route jwt_verify cloud authorization (Parsed b) False part folder s
        = (Response 401 (Message ''No token''), s))
   \<and> (bearer_token authorization = Some t \<and> t \<noteq> [] \<and> \<not> jwt_verify t \<longrightarrow>
      post_route jwt_verify authorization (Parsed b) False construct now new_id docs
        = (Response 401 (Message ''Invalid token''), docs)
      \<and> put_route jwt_verify authorization (Parsed b) False cast now i docs
        = (Response 401 (Message ''Invalid token''), docs)
      \<and> delete_route jwt_verify authorization (Parsed b) False i docs
        = (Response 401 (Message ''Invalid token''), docs)
      \<and> reorder_route jwt_verify authorization (Parsed items) False now docs
        = (Response 401 (Message ''Invalid token''), docs)
      \<and> post_blog_route jwt_verify toDate lowercase authorization (Parsed body) False now new_id posts
        = (Response 401 (Message ''Invalid token''), posts)
      \<and> put_blog_route jwt_verify toDate lowercase authorization (Parsed body) False now i posts
        = (Response 401 (Message ''Invalid token''), posts)
      \<and> upload_route jwt_verify cloud authorization (Parsed b) False part folder s
        = (Response 401 (Message ''Invalid token''), s))
   \<and> post_route jwt_verify authorization Refused exceeded construct now new_id docs
        = (Response 500 (Message ''Error!''), docs)
   \<and> put_route jwt_verify authorization Refused exceeded cast now i docs
        = (Response 500 (Message ''Error!''), docs)
   \<and> delete_route jwt_verify authorization Refused exceeded i docs
        = (Response 500 (Message ''Error!''), docs)
   \<and> reorder_route jwt_verify authorization Refused exceeded now docs
        = (Response 500 (Message ''Error!''), docs)
   \<and> post_blog_route jwt_verify toDate lowercase authorization Refused exceeded now new_id posts
        = (Response 500 (Message ''Error!''), posts)
   \<and> put_blog_route jwt_verify toDate lowercase authorization Refused exceeded now i posts
        = (Response 500 (Message ''Error!''), posts)
   \<and> upload_route jwt_verify cloud authorization Refused exceeded part folder s
        = (Response 500 (Message ''Error!''), s)
   \<and> post_route jwt_verify authorization (Parsed b) True construct now new_id docs
        = (Response 429 (Message ''Too many requests''), docs)
   \<and> put_route jwt_verify authorization (Parsed b) True cast now i docs
        = (Response 429 (Message ''Too many requests''), docs)
   \<and> delete_route jwt_verify authorization (Parsed b) True i docs
        = (Response 429 (Message ''Too many requests''), docs)
   \<and> reorder_route jwt_verify authorization (Parsed items) True now docs
        = (Response 429 (Message ''Too many requests''), docs)
   \<and> post_blog_route jwt_verify toDate lowercase authorization (Parsed body) True now new_id posts
        = (Response 429 (Message ''Too many requests''), posts)
   \<and> put_blog_route jwt_verify toDate lowercase authorization (Parsed body) True now i posts
        = (Response 429 (Message ''Too many requests''), posts)
   \<and> upload_route jwt_verify cloud authorization (Parsed b) True part folder s
        = (Response 429 (Message ''Too many requests''), s)"
proof -
  have refused: "express_json Refused route x = (Response 500 (Message ''Error!''), x)"
    for route :: "'x \<Rightarrow> 'y \<Rightarrow> 'z response \<times> 'y" and x
    by (simp add: express_json_def error_handler_def)
  have limited: "express_json (Parsed c) (\<lambda>b. limiter True (route b)) x
      = (Response 429 (Message ''Too many requests''), x)"
    for route :: "'x \<Rightarrow> 'y \<Rightarrow> 'z response \<times> 'y" and c x
    by (simp add: express_json_def limiter_def)
  have upload: "upload_route jwt_verify cloud authorization (Parsed b) False part folder s
      = authMiddleware jwt_verify authorization
          (\<lambda>s. case upload_single part of
                  Inl err \<Rightarrow> (error_handler err, s)
                | Inr file \<Rightarrow> upload_handler cloud file folder s) s"
    by (simp add: upload_route_def post_upload_def express_json_def limiter_def)
  show ?thesis
  proof (intro conjI impI)
    assume a: "bearer_token authorization = None \<or> bearer_token authorization = Some []"
    show "post_route jwt_verify authorization (Parsed b) False construct now new_id docs
        = (Response 401 (Message ''No token''), docs)"
      unfolding post_route_def past_middleware using a by (rule authMiddleware_no_token)
    show "put_route jwt_verify authorization (Parsed b) False cast now i docs
        = (Response 401 (Message ''No token''), docs)"
      unfolding put_route_def past_middleware using a by (rule authMiddleware_no_token)
    show "delete_route jwt_verify authorization (Parsed b) False i docs
        = (Response 401 (Message ''No token''), docs)"
      unfolding delete_route_def past_middleware using a by (rule authMiddleware_no_token)
    show "reorder_route jwt_verify authorization (Parsed items) False now docs
        = (Response 401 (Message ''No token''), docs)"
      unfolding reorder_route_def past_middleware using a by (rule authMiddleware_no_token)
    show "post_blog_route jwt_verify toDate lowercase authorization (Parsed body) False now new_id posts
        = (Response 401 (Message ''No token''), posts)"
      unfolding post_blog_route_def past_middleware using a by (rule authMiddleware_no_token)
    show "put_blog_route jwt_verify toDate lowercase authorization (Parsed body) False now i posts
        = (Response 401 (Message ''No token''), posts)"
      unfolding put_blog_route_def past_middleware using a by (rule authMiddleware_no_token)
    show "upload_route jwt_verify cloud authorization (Parsed b) False part folder s
        = (Response 401 (Message ''No token''), s)"
      unfolding upload using a by (rule authMiddleware_no_token)
  next
    assume "bearer_token authorization = Some t \<and> t \<noteq> [] \<and> \<not> jwt_verify t"
    then have a: "bearer_token authorization = Some t" and b: "t \<noteq> []" and c: "\<not> jwt_verify t"
      by simp_all
    show "post_route jwt_verify authorization (Parsed b) False construct now new_id docs
        = (Response 401 (Message ''Invalid token''), docs)"
      unfolding post_route_def past_middleware using a b c by (rule authMiddleware_invalid_token)
    show "put_route jwt_verify authorization (Parsed b) False cast now i docs
        = (Response 401 (Message ''Invalid token''), docs)"
      unfolding put_route_def past_middleware using a b c by (rule authMiddleware_invalid_token)
    show "delete_route jwt_verify authorization (Parsed b) False i docs
        = (Response 401 (Message ''Invalid token''), docs)"
      unfolding delete_route_def past_middleware using a b c by (rule authMiddleware_invalid_token)
    show "reorder_route jwt_verify authorization (Parsed items) False now docs
        = (Response 401 (Message ''Invalid token''), docs)"
      unfolding reorder_route_def past_middleware using a b c by (rule authMiddleware_invalid_token)
    show "post_blog_route jwt_verify toDate lowercase authorization (Parsed body) False now new_id posts
        = (Response 401 (Message ''Invalid token''), posts)"
      unfolding post_blog_route_def past_middleware using a b c by (rule authMiddleware_invalid_token)
    show "put_blog_route jwt_verify toDate lowercase authorization (Parsed body) False now i posts
        = (Response 401 (Message ''Invalid token''), posts)"
      unfolding put_blog_route_def past_middleware using a b c by (rule authMiddleware_invalid_token)
    show "upload_route jwt_verify cloud authorization (Parsed b) False part folder s
        = (Response 401 (Message ''Invalid token''), s)"
      unfolding upload using a b c by (rule authMiddleware_invalid_token)
  qed (simp_all only: post_route_def put_route_def delete_route_def reorder_route_def
      post_blog_route_def put_blog_route_def upload_route_def refused limited)
qed

theorem C6_auth_rejects_401_witness:
  "reorder_route sample_verify (Some ''Bearer'') (Parsed (Some [good_item])) False 100 [sample_doc]
     = (Response 401 (Message ''No token''), [sample_doc])
   \<and> put_blog_route sample_verify sample_toDate toLowerCase (Some ''Bearer expired'')
        (Parsed publish_body) False 100 1 [draft_post]
     = (Response 401 (Message ''Invalid token''), [draft_post])
   \<and> delete_route sample_verify (Some ''Bearer expired'') (Parsed ()) False 7 [sample_doc]
     = (Response 401 (Message ''Invalid token''), [sample_doc])"
proof -
  have a: "bearer_token (Some ''Bearer'') = None \<or> bearer_token (Some ''Bearer'') = Some []"
    by (simp add: bearer_token_def element_at_def)
  have b: "bearer_token (Some ''Bearer expired'') = Some ''expired'' \<and> ''expired'' \<noteq> []
           \<and> \<not> sample_verify ''expired''"
    by (simp add: bearer_token_def element_at_def sample_verify_def)
  have r1: "reorder_route sample_verify (Some ''Bearer'') (Parsed (Some [good_item])) False 100 [sample_doc]
     = (Response 401 (Message ''No token''), [sample_doc])"
    by (rule C6_auth_rejects_401 [where authorization = "Some ''Bearer''" and jwt_verify = sample_verify
        and items = "Some [good_item]" and now = 100 and docs = "[sample_doc]",
        THEN conjunct1, THEN mp, OF a, THEN conjunct2, THEN conjunct2, THEN conjunct2, THEN conjunct1])
  have r2: "put_blog_route sample_verify sample_toDate toLowerCase (Some ''Bearer expired'')
        (Parsed publish_body) False 100 1 [draft_post]
     = (Response 401 (Message ''Invalid token''), [draft_post])"
    by (rule C6_auth_rejects_401 [where authorization = "Some ''Bearer expired''" and jwt_verify = sample_verify
        and t = "''expired''" and toDate = sample_toDate and lowercase = toLowerCase
        and body = publish_body and now = 100 and i = 1 and posts = "[draft_post]",
        THEN conjunct2, THEN conjunct1, THEN mp, OF b, THEN conjunct2, THEN conjunct2, THEN conjunct2,
        THEN conjunct2, THEN conjunct2, THEN conjunct1])
  have r3: "delete_route sample_verify (Some ''Bearer expired'') (Parsed ()) False 7 [sample_doc]
     = (Response 401 (Message ''Invalid token''), [sample_doc])"
    by (rule C6_auth_rejects_401 [where authorization = "Some ''Bearer expired''" and jwt_verify = sample_verify
        and t = "''expired''" and b = "()" and i = 7 and docs = "[sample_doc]",
        THEN conjunct2, THEN conjunct1, THEN mp, OF b, THEN conjunct2, THEN conjunct2, THEN conjunct1])
  from r1 r2 r3 show ?thesis by (intro conjI)
qed

lemma authMiddleware_pass:
  "bearer_token authorization = Some t \<Longrightarrow> t \<noteq> [] \<Longrightarrow> jwt_verify t \<Longrightarrow>
   authMiddleware jwt_verify authorization handler s = handler s"
  by (simp add: authMiddleware_def)

lemma status_authMiddleware_200:
  "status (fst (authMiddleware jwt_verify authorization handler s)) = 200 \<Longrightarrow>
   authMiddleware jwt_verify authorization handler s = handler s"
  by (auto simp: authMiddleware_def split: option.splits if_splits)

section \<open>Properties of the upload route\<close>

text \<open>
  C9, as stated: an authenticated upload of a file that is not an image is rejected and
  reported as HTTP 400. The filter's error goes to the error-handling middleware, which
  answers 500 with the message \<^verbatim>\<open>Error!\<close>, whatever the error.
\<close>

theorem C9_non_image_counterexample:
  "fst (post_upload sample_verify sample_cloud (Some ''Bearer good'') (Some text_file) None (0::nat))
     = Response 500 (Message ''Error!'')
   \<and> status (fst (post_upload sample_verify sample_cloud (Some ''Bearer good'') (Some text_file) None (0::nat)))
     \<noteq> 400"
  by (simp add: post_upload_def authMiddleware_def bearer_token_def element_at_def sample_verify_def
      upload_single_def fileFilter_def text_file_def error_handler_def)

text \<open>
  C9, amended: an authenticated upload of a file whose content type does not start with
  \<^verbatim>\<open>image/\<close> is rejected with HTTP 500 and the body \<^verbatim>\<open>{message: 'Error!'}\<close>, and so is one
  of a file longer than the ceiling of 10 MB; an upload that is answered 200 carried a
  file of an image type of at most 10 MB.
\<close>

theorem C9_upload_rejects_non_image:
  "(bearer_token authorization = Some t \<and> t \<noteq> [] \<and> jwt_verify t
      \<and> \<not> startsWith (mimetype f) ''image/'' \<longrightarrow>
      post_upload jwt_verify cloud authorization (Some f) folder s = (Response 500 (Message ''Error!''), s))
   \<and> (bearer_token authorization = Some t \<and> t \<noteq> [] \<and> jwt_verify t
      \<and> file_size f > 10485760 \<longrightarrow>
      post_upload jwt_verify cloud authorization (Some f) folder s = (Response 500 (Message ''Error!''), s))
   \<and> (status (fst (post_upload jwt_verify cloud authorization (Some f) folder s)) = 200 \<longrightarrow>
      startsWith (mimetype f) ''image/'' \<and> file_size f \<le> 10485760)"
proof (intro conjI impI)
  assume a: "bearer_token authorization = Some t \<and> t \<noteq> [] \<and> jwt_verify t
      \<and> \<not> startsWith (mimetype f) ''image/''"
  then show "post_upload jwt_verify cloud authorization (Some f) folder s = (Response 500 (Message ''Error!''), s)"
    by (simp add: post_upload_def authMiddleware_pass upload_single_def fileFilter_def error_handler_def)
next
  assume a: "bearer_token authorization = Some t \<and> t \<noteq> [] \<and> jwt_verify t
      \<and> file_size f > 10485760"
  then show "post_upload jwt_verify cloud authorization (Some f) folder s = (Response 500 (Message ''Error!''), s)"
    by (simp add: post_upload_def authMiddleware_pass upload_single_def fileFilter_def error_handler_def
        fileSize_def)
next
  assume ok: "status (fst (post_upload jwt_verify cloud authorization (Some f) folder s)) = 200"
  then have "status (fst (case upload_single (Some f) of
               Inl err \<Rightarrow> (error_handler err :: upload_result response, s)
             | Inr file \<Rightarrow> upload_handler cloud file folder s)) = 200"
    unfolding post_upload_def using status_authMiddleware_200 by fastforce
  then show "startsWith (mimetype f) ''image/''"
    by (auto simp: upload_single_def fileFilter_def error_handler_def split: if_splits)
  from \<open>status (fst (case upload_single (Some f) of
               Inl err \<Rightarrow> (error_handler err :: upload_result response, s)
             | Inr file \<Rightarrow> upload_handler cloud file folder s)) = 200\<close>
  show "file_size f \<le> 10485760"
    by (auto simp: upload_single_def fileFilter_def error_handler_def fileSize_def split: if_splits)
qed

theorem C9_upload_rejects_non_image_witness:
  "post_upload sample_verify sample_cloud (Some ''Bearer good'') (Some text_file) (Some ''photography'') (0::nat)
     = (Response 500 (Message ''Error!''), 0)
   \<and> startsWith (mimetype png_file) ''image/'' \<and> file_size png_file \<le> 10485760"
proof -
  have h1: "bearer_token (Some ''Bearer good'') = Some ''good'' \<and> ''good'' \<noteq> [] \<and> sample_verify ''good''
      \<and> \<not> startsWith (mimetype text_file) ''image/''"
    by (simp add: bearer_token_def element_at_def sample_verify_def text_file_def)
  have h2: "status (fst (post_upload sample_verify sample_cloud (Some ''Bearer good'') (Some png_file)
      (Some ''photography'') (0::nat))) = 200"
    by (simp add: post_upload_def authMiddleware_def bearer_token_def element_at_def sample_verify_def
        upload_single_def fileFilter_def png_file_def fileSize_def upload_handler_def sample_cloud_def Let_def)
  from h1 h2 show ?thesis
    using C9_upload_rejects_non_image [where authorization = "Some ''Bearer good''" and t = "''good''"
        and jwt_verify = sample_verify and f = text_file and cloud = sample_cloud
        and folder = "Some ''photography''" and s = "0::nat"]
      C9_upload_rejects_non_image [where authorization = "Some ''Bearer good''" and t = "''good''"
        and jwt_verify = sample_verify and f = png_file and cloud = sample_cloud
        and folder = "Some ''photography''" and s = "0::nat"]
    by blast
qed

section \<open>Properties of the document store\<close>


lemma findByIdAndUpdate_missing:
  "findById docs i = None \<Longrightarrow> findByIdAndUpdate now docs i upd = (None, docs)"
  by (induction docs) (auto simp: findById_def split: if_splits prod.splits)



lemma mset_place: "mset (place before d ds) = add_mset d (mset ds)"
  by (induction ds) auto

lemma mset_sort_docs: "mset (sort_docs before ds) = mset ds"
  by (induction ds) (auto simp: sort_docs_def mset_place)

lemma set_place: "set (place before d ds) = insert d (set ds)"
  by (induction ds) auto

lemma sorted_place:
  assumes tot: "\<And>a b. before a b \<or> before b a"
    and tr: "\<And>a b c. before a b \<Longrightarrow> before b c \<Longrightarrow> before a c"
  shows "sorted_wrt before ds \<Longrightarrow> sorted_wrt before (place before d ds)"
proof (induction ds)
  case Nil
  then show ?case by simp
next
  case (Cons e es)
  show ?case
  proof (cases "before d e")
    case True
    with Cons.prems tr show ?thesis by auto
  next
    case False
    with tot have "before e d" by blast
    with Cons False show ?thesis by (auto simp: set_place)
  qed
qed

lemma sorted_sort_docs:
  assumes tot: "\<And>a b. before a b \<or> before b a"
    and tr: "\<And>a b c. before a b \<Longrightarrow> before b c \<Longrightarrow> before a c"
  shows "sorted_wrt before (sort_docs before ds)"
proof (induction ds)
  case Nil
  then show ?case by (simp add: sort_docs_def)
next
  case (Cons d ds)
  have "sort_docs before (d # ds) = place before d (sort_docs before ds)"
    by (simp add: sort_docs_def)
  with Cons sorted_place [OF tot tr] show ?case by simp
qed

section \<open>Properties of the update routes\<close>

lemma put_handler_missing_id:
  "findById docs i = None \<Longrightarrow> cast body = Inr upd \<Longrightarrow>
   put_handler cast now i body docs = (Response 404 (Message ''Not found''), docs)"
  by (simp add: put_handler_def findByIdAndUpdate_missing)

text \<open>
  C2: an authenticated UPDATE of an id that no document has fails with NotFound (404),
  for every collection, the blog included. The blog route reads \<^verbatim>\<open>was.published\<close> of
  the null that \<^verbatim>\<open>findById\<close> returns for such an id, whenever the \<^verbatim>\<open>published\<close> of the
  body is truthy: the TypeError is caught and answered 400, and the line that answers
  404 is never reached. The other collections answer 404 (\<open>put_handler_missing_id\<close>).
\<close>

theorem C2_put_blog_missing_id:
  "put_blog_route sample_verify sample_toDate toLowerCase (Some ''Bearer good'')
       (Parsed publish_body) False 100 7 []
     = (Response 400 (ErrorMessage TypeError), [])"
  by (simp add: put_blog_route_def express_json_def limiter_def authMiddleware_def bearer_token_def
      element_at_def sample_verify_def put_blog_handler_def stamp_publishedAt_def truthy_field_def
      findById_def publish_body_def empty_body_def)

section \<open>Properties of the blog routes\<close>

text \<open>
  C3, as stated: for every slug, the string \<^verbatim>\<open>all\<close> included, an unauthenticated
  \<^verbatim>\<open>GET /api/blog/:slug\<close> returns the published post with that slug, or 404. The path
  \<^verbatim>\<open>/api/blog/all\<close> belongs to the route registered before, which wants a token: without
  one the answer is 401, also when a published post has the slug \<^verbatim>\<open>all\<close>.
\<close>

theorem C3_slug_all_counterexample:
  "get_blog_routes sample_verify toLowerCase sample_decode None (Parsed ()) False ''all'' [live_post]
     = (Response 401 (Message ''No token''), [live_post])
   \<and> slug live_post = js ''all'' \<and> published live_post"
  by (simp add: get_blog_routes_def express_json_def limiter_def segment_of_def matches_all_def
      lower_char_def authMiddleware_def bearer_token_def live_post_def)

lemma find_slug_unique:
  "distinct (map slug posts) \<Longrightarrow> p \<in> set posts \<Longrightarrow>
   find (\<lambda>q. slug q = slug p \<and> published q) posts = (if published p then Some p else None)"
proof (induction posts)
  case Nil
  then show ?case by simp
next
  case (Cons q qs)
  show ?case
  proof (cases "q = p")
    case True
    with Cons.prems show ?thesis
      by (auto simp: find_None_iff image_iff)
  next
    case False
    with Cons.prems have "p \<in> set qs" "slug q \<noteq> slug p"
      by (auto simp: image_iff)
    with Cons show ?thesis by simp
  qed
qed

text \<open>The one segment of a path, with or without the slash at the end.\<close>

lemma segment_of_segment:
  assumes "seg \<noteq> []" and "CHR ''/'' \<notin> set seg" and "rest = seg \<or> rest = seg @ ''/''"
  shows "rest \<noteq> [] \<and> segment_of rest = seg"
proof -
  from assms(1) have "last seg \<in> set seg" by (rule last_in_set)
  with assms(2) have "last seg \<noteq> CHR ''/''" by auto
  with assms show ?thesis
    by (auto simp: segment_of_def)
qed

lemma matches_all_segment: "matches_all seg \<Longrightarrow> seg \<noteq> [] \<and> CHR ''/'' \<notin> set seg"
proof -
  assume "matches_all seg"
  then have m: "map lower_char seg = ''all''" by (simp add: matches_all_def)
  then have "seg \<noteq> []" by auto
  moreover have "CHR ''/'' \<notin> set seg"
  proof
    assume "CHR ''/'' \<in> set seg"
    then have "lower_char CHR ''/'' \<in> lower_char ` set seg" by (rule imageI)
    then have "lower_char CHR ''/'' \<in> set (map lower_char seg)" by simp
    with m show False by (simp add: lower_char_def)
  qed
  ultimately show ?thesis by simp
qed

lemma slug_route:
  assumes "seg \<noteq> []" and "CHR ''/'' \<notin> set seg" and "rest = seg \<or> rest = seg @ ''/''"
    and "\<not> matches_all seg"
  shows "get_blog_routes jwt_verify lowercase decodeURIComponent authorization (Parsed b) False rest posts
    = (case decodeURIComponent seg of
         None \<Rightarrow> (error_handler URIError, posts)
       | Some s \<Rightarrow> (get_blog_slug_handler lowercase s posts, posts))"
  using assms segment_of_segment [OF assms(1,2,3)]
  by (simp add: get_blog_routes_def express_json_def limiter_def)

lemma all_route:
  assumes "matches_all seg" and "rest = seg \<or> rest = seg @ ''/''"
  shows "get_blog_routes jwt_verify lowercase decodeURIComponent authorization (Parsed b) False rest posts
    = authMiddleware jwt_verify authorization get_blog_all_handler posts"
proof -
  from matches_all_segment [OF assms(1)] have s: "seg \<noteq> []" "CHR ''/'' \<notin> set seg" by simp_all
  from segment_of_segment [OF s assms(2)] assms(1) s show ?thesis
    by (simp add: get_blog_routes_def express_json_def limiter_def)
qed

text \<open>
  C3, amended: for every request that the body parsers accept and the rate limiter lets
  pass, with or without a token, whose path is \<^verbatim>\<open>/api/blog/\<close> and one segment (with or
  without a slash at the end) that is not \<^verbatim>\<open>all\<close> in any case of its letters: the
  route returns the post whose slug is the segment, decoded and put in lower case (as
  slugs are stored), when it exists and is published, and 404 when no post has that
  slug or the post is not published; the store is unchanged. Slugs are unique in the
  store. A segment that cannot be decoded is answered 500. The segment \<^verbatim>\<open>all\<close>, in any
  case of its letters, belongs to the route of the full list: without a token that can
  be read it is answered 401 \<^verbatim>\<open>No token\<close>, with a token that fails verification 401
  \<^verbatim>\<open>Invalid token\<close>, whatever posts there are.
\<close>

theorem C3_get_by_slug:
  "(seg \<noteq> [] \<and> CHR ''/'' \<notin> set seg \<and> (rest = seg \<or> rest = seg @ ''/'') \<and> \<not> matches_all seg
      \<and> decodeURIComponent seg = Some s
      \<and> distinct (map slug posts) \<and> p \<in> set posts \<and> slug p = lowercase s \<longrightarrow>
      get_blog_routes jwt_verify lowercase decodeURIComponent authorization (Parsed b) False rest posts
        = (if published p then Response 200 (Data (Post p)) else Response 404 (Message ''Not found''),
           posts))
   \<and> (seg \<noteq> [] \<and> CHR ''/'' \<notin> set seg \<and> (rest = seg \<or> rest = seg @ ''/'') \<and> \<not> matches_all seg
      \<and> decodeURIComponent seg = Some s \<and> lowercase s \<notin> slug ` set posts \<longrightarrow>
      get_blog_routes jwt_verify lowercase decodeURIComponent authorization (Parsed b) False rest posts
        = (Response 404 (Message ''Not found''), posts))
   \<and> (seg \<noteq> [] \<and> CHR ''/'' \<notin> set seg \<and> (rest = seg \<or> rest = seg @ ''/'') \<and> \<not> matches_all seg
      \<and> decodeURIComponent seg = None \<longrightarrow>
      get_blog_routes jwt_verify lowercase decodeURIComponent authorization (Parsed b) False rest posts
        = (Response 500 (Message ''Error!''), posts))
   \<and> (matches_all seg \<and> (rest = seg \<or> rest = seg @ ''/'')
      \<and> (bearer_token authorization = None \<or> bearer_token authorization = Some []) \<longrightarrow>
      get_blog_routes jwt_verify lowercase decodeURIComponent authorization (Parsed b) False rest posts
        = (Response 401 (Message ''No token''), posts))
   \<and> (matches_all seg \<and> (rest = seg \<or> rest = seg @ ''/'')
      \<and> bearer_token authorization = Some t \<and> t \<noteq> [] \<and> \<not> jwt_verify t \<longrightarrow>
      get_blog_routes jwt_verify lowercase decodeURIComponent authorization (Parsed b) False rest posts
        = (Response 401 (Message ''Invalid token''), posts))"
proof (intro conjI impI)
  assume a: "seg \<noteq> [] \<and> CHR ''/'' \<notin> set seg \<and> (rest = seg \<or> rest = seg @ ''/'') \<and> \<not> matches_all seg
      \<and> decodeURIComponent seg = Some s
      \<and> distinct (map slug posts) \<and> p \<in> set posts \<and> slug p = lowercase s"
  then have "find (\<lambda>q. slug q = lowercase s \<and> published q) posts
      = (if published p then Some p else None)"
    using find_slug_unique [of posts p] by auto
  with a show "get_blog_routes jwt_verify lowercase decodeURIComponent authorization (Parsed b) False rest posts
        = (if published p then Response 200 (Data (Post p)) else Response 404 (Message ''Not found''),
           posts)"
    by (simp add: slug_route [where seg = seg and rest = rest] get_blog_slug_handler_def)
next
  assume a: "seg \<noteq> [] \<and> CHR ''/'' \<notin> set seg \<and> (rest = seg \<or> rest = seg @ ''/'') \<and> \<not> matches_all seg
      \<and> decodeURIComponent seg = Some s \<and> lowercase s \<notin> slug ` set posts"
  then have "find (\<lambda>q. slug q = lowercase s \<and> published q) posts = None"
    by (force simp: find_None_iff)
  with a show "get_blog_routes jwt_verify lowercase decodeURIComponent authorization (Parsed b) False rest posts
        = (Response 404 (Message ''Not found''), posts)"
    by (simp add: slug_route [where seg = seg and rest = rest] get_blog_slug_handler_def)
next
  assume a: "seg \<noteq> [] \<and> CHR ''/'' \<notin> set seg \<and> (rest = seg \<or> rest = seg @ ''/'') \<and> \<not> matches_all seg
      \<and> decodeURIComponent seg = None"
  then show "get_blog_routes jwt_verify lowercase decodeURIComponent authorization (Parsed b) False rest posts
        = (Response 500 (Message ''Error!''), posts)"
    by (simp add: slug_route [where seg = seg and rest = rest] error_handler_def)
next
  assume a: "matches_all seg \<and> (rest = seg \<or> rest = seg @ ''/'')
      \<and> (bearer_token authorization = None \<or> bearer_token authorization = Some [])"
  then have "get_blog_routes jwt_verify lowercase decodeURIComponent authorization (Parsed b) False rest posts
    = authMiddleware jwt_verify authorization get_blog_all_handler posts"
    by (simp add: all_route [where seg = seg and rest = rest])
  with a show "get_blog_routes jwt_verify lowercase decodeURIComponent authorization (Parsed b) False rest posts
        = (Response 401 (Message ''No token''), posts)"
    by (simp add: authMiddleware_no_token)
next
  assume a: "matches_all seg \<and> (rest = seg \<or> rest = seg @ ''/'')
      \<and> bearer_token authorization = Some t \<and> t \<noteq> [] \<and> \<not> jwt_verify t"
  then have "get_blog_routes jwt_verify lowercase decodeURIComponent authorization (Parsed b) False rest posts
    = authMiddleware jwt_verify authorization get_blog_all_handler posts"
    by (simp add: all_route [where seg = seg and rest = rest])
  with a show "get_blog_routes jwt_verify lowercase decodeURIComponent authorization (Parsed b) False rest posts
        = (Response 401 (Message ''Invalid token''), posts)"
    by (simp add: authMiddleware_invalid_token)
qed

theorem C3_get_by_slug_witness:
  "get_blog_routes sample_verify toLowerCase sample_decode None (Parsed ()) False ''Hello''
       [draft_post, hello_post]
     = (Response 200 (Data (Post hello_post)), [draft_post, hello_post])
   \<and> get_blog_routes sample_verify toLowerCase sample_decode None (Parsed ()) False ''hello/''
       [draft_post, hello_post]
     = (Response 200 (Data (Post hello_post)), [draft_post, hello_post])
   \<and> get_blog_routes sample_verify toLowerCase sample_decode None (Parsed ()) False ''%61ll''
       [draft_post, live_post]
     = (Response 200 (Data (Post live_post)), [draft_post, live_post])
   \<and> get_blog_routes sample_verify toLowerCase sample_decode None (Parsed ()) False ''draft''
       [draft_post, hello_post]
     = (Response 404 (Message ''Not found''), [draft_post, hello_post])
   \<and> get_blog_routes sample_verify toLowerCase sample_decode None (Parsed ()) False ''missing''
       [draft_post, hello_post]
     = (Response 404 (Message ''Not found''), [draft_post, hello_post])
   \<and> get_blog_routes sample_verify toLowerCase sample_decode None (Parsed ()) False ''%''
       [draft_post, hello_post]
     = (Response 500 (Message ''Error!''), [draft_post, hello_post])
   \<and> get_blog_routes sample_verify toLowerCase sample_decode None (Parsed ()) False ''ALL/''
       [draft_post, live_post]
     = (Response 401 (Message ''No token''), [draft_post, live_post])
   \<and> get_blog_routes sample_verify toLowerCase sample_decode (Some ''Bearer expired'') (Parsed ()) False
       ''all'' [draft_post, live_post]
     = (Response 401 (Message ''Invalid token''), [draft_post, live_post])"
proof -
  note defs = matches_all_def lower_char_def sample_decode_def toLowerCase_def js_def
    draft_post_def hello_post_def live_post_def
  have h0: "''Hello'' \<noteq> [] \<and> CHR ''/'' \<notin> set ''Hello'' \<and> (''Hello'' = ''Hello'' \<or> ''Hello'' = ''Hello'' @ ''/'')
      \<and> \<not> matches_all ''Hello'' \<and> sample_decode ''Hello'' = Some (js ''Hello'')
      \<and> distinct (map slug [draft_post, hello_post])
      \<and> hello_post \<in> set [draft_post, hello_post] \<and> slug hello_post = toLowerCase (js ''Hello'')"
    by (simp add: defs)
  have h1: "''hello'' \<noteq> [] \<and> CHR ''/'' \<notin> set ''hello'' \<and> (''hello/'' = ''hello'' \<or> ''hello/'' = ''hello'' @ ''/'')
      \<and> \<not> matches_all ''hello'' \<and> sample_decode ''hello'' = Some (js ''hello'')
      \<and> distinct (map slug [draft_post, hello_post])
      \<and> hello_post \<in> set [draft_post, hello_post] \<and> slug hello_post = toLowerCase (js ''hello'')"
    by (simp add: defs)
  have h2: "''%61ll'' \<noteq> [] \<and> CHR ''/'' \<notin> set ''%61ll'' \<and> (''%61ll'' = ''%61ll'' \<or> ''%61ll'' = ''%61ll'' @ ''/'')
      \<and> \<not> matches_all ''%61ll'' \<and> sample_decode ''%61ll'' = Some (js ''all'')
      \<and> distinct (map slug [draft_post, live_post])
      \<and> live_post \<in> set [draft_post, live_post] \<and> slug live_post = toLowerCase (js ''all'')"
    by (simp add: defs)
  have h3: "''draft'' \<noteq> [] \<and> CHR ''/'' \<notin> set ''draft'' \<and> (''draft'' = ''draft'' \<or> ''draft'' = ''draft'' @ ''/'')
      \<and> \<not> matches_all ''draft'' \<and> sample_decode ''draft'' = Some (js ''draft'')
      \<and> distinct (map slug [draft_post, hello_post])
      \<and> draft_post \<in> set [draft_post, hello_post] \<and> slug draft_post = toLowerCase (js ''draft'')"
    by (simp add: defs)
  have h4: "''missing'' \<noteq> [] \<and> CHR ''/'' \<notin> set ''missing''
      \<and> (''missing'' = ''missing'' \<or> ''missing'' = ''missing'' @ ''/'')
      \<and> \<not> matches_all ''missing'' \<and> sample_decode ''missing'' = Some (js ''missing'')
      \<and> toLowerCase (js ''missing'') \<notin> slug ` set [draft_post, hello_post]"
    by (simp add: defs)
  have h5: "''%'' \<noteq> [] \<and> CHR ''/'' \<notin> set ''%'' \<and> (''%'' = ''%'' \<or> ''%'' = ''%'' @ ''/'')
      \<and> \<not> matches_all ''%'' \<and> sample_decode ''%'' = None"
    by (simp add: defs)
  have h6: "matches_all ''ALL'' \<and> (''ALL/'' = ''ALL'' \<or> ''ALL/'' = ''ALL'' @ ''/'')
      \<and> (bearer_token None = None \<or> bearer_token None = Some [])"
    by (simp add: defs bearer_token_def)
  have h7: "matches_all ''all'' \<and> (''all'' = ''all'' \<or> ''all'' = ''all'' @ ''/'')
      \<and> bearer_token (Some ''Bearer expired'') = Some ''expired'' \<and> ''expired'' \<noteq> []
      \<and> \<not> sample_verify ''expired''"
    by (simp add: defs bearer_token_def element_at_def sample_verify_def)
  have pub: "\<not> published draft_post \<and> published hello_post \<and> published live_post"
    by (simp add: draft_post_def hello_post_def live_post_def)
  have r0: "get_blog_routes sample_verify toLowerCase sample_decode None (Parsed ()) False ''Hello''
       [draft_post, hello_post]
      = (if published hello_post then Response 200 (Data (Post hello_post))
         else Response 404 (Message ''Not found''), [draft_post, hello_post])"
    using h0 C3_get_by_slug [where seg = "''Hello''" and rest = "''Hello''" and s = "js ''Hello''"
        and posts = "[draft_post, hello_post]" and p = hello_post and jwt_verify = sample_verify
        and authorization = None and lowercase = toLowerCase and decodeURIComponent = sample_decode
        and b = "()"]
    by blast
  have r1: "get_blog_routes sample_verify toLowerCase sample_decode None (Parsed ()) False ''hello/''
       [draft_post, hello_post]
      = (if published hello_post then Response 200 (Data (Post hello_post))
         else Response 404 (Message ''Not found''), [draft_post, hello_post])"
    using h1 C3_get_by_slug [where seg = "''hello''" and rest = "''hello/''" and s = "js ''hello''"
        and posts = "[draft_post, hello_post]" and p = hello_post and jwt_verify = sample_verify
        and authorization = None and lowercase = toLowerCase and decodeURIComponent = sample_decode
        and b = "()"]
    by blast
  have r2: "get_blog_routes sample_verify toLowerCase sample_decode None (Parsed ()) False ''%61ll''
       [draft_post, live_post]
      = (if published live_post then Response 200 (Data (Post live_post))
         else Response 404 (Message ''Not found''), [draft_post, live_post])"
    using h2 C3_get_by_slug [where seg = "''%61ll''" and rest = "''%61ll''" and s = "js ''all''"
        and posts = "[draft_post, live_post]" and p = live_post and jwt_verify = sample_verify
        and authorization = None and lowercase = toLowerCase and decodeURIComponent = sample_decode
        and b = "()"]
    by blast
  have r3: "get_blog_routes sample_verify toLowerCase sample_decode None (Parsed ()) False ''draft''
       [draft_post, hello_post]
      = (if published draft_post then Response 200 (Data (Post draft_post))
         else Response 404 (Message ''Not found''), [draft_post, hello_post])"
    using h3 C3_get_by_slug [where seg = "''draft''" and rest = "''draft''" and s = "js ''draft''"
        and posts = "[draft_post, hello_post]" and p = draft_post and jwt_verify = sample_verify
        and authorization = None and lowercase = toLowerCase and decodeURIComponent = sample_decode
        and b = "()"]
    by blast
  have r4: "get_blog_routes sample_verify toLowerCase sample_decode None (Parsed ()) False ''missing''
       [draft_post, hello_post]
      = (Response 404 (Message ''Not found''), [draft_post, hello_post])"
    using h4 C3_get_by_slug [where seg = "''missing''" and rest = "''missing''" and s = "js ''missing''"
        and posts = "[draft_post, hello_post]" and jwt_verify = sample_verify
        and authorization = None and lowercase = toLowerCase and decodeURIComponent = sample_decode
        and b = "()"]
    by blast
  have r5: "get_blog_routes sample_verify toLowerCase sample_decode None (Parsed ()) False ''%''
       [draft_post, hello_post]
      = (Response 500 (Message ''Error!''), [draft_post, hello_post])"
    using h5 C3_get_by_slug [where seg = "''%''" and rest = "''%''"
        and posts = "[draft_post, hello_post]" and jwt_verify = sample_verify
        and authorization = None and lowercase = toLowerCase and decodeURIComponent = sample_decode
        and b = "()"]
    by blast
  have r6: "get_blog_routes sample_verify toLowerCase sample_decode None (Parsed ()) False ''ALL/''
       [draft_post, live_post]
      = (Response 401 (Message ''No token''), [draft_post, live_post])"
    using h6 C3_get_by_slug [where seg = "''ALL''" and rest = "''ALL/''"
        and posts = "[draft_post, live_post]" and jwt_verify = sample_verify
        and authorization = None and lowercase = toLowerCase and decodeURIComponent = sample_decode
        and b = "()"]
    by blast
  have r7: "get_blog_routes sample_verify toLowerCase sample_decode (Some ''Bearer expired'') (Parsed ()) False
       ''all'' [draft_post, live_post]
      = (Response 401 (Message ''Invalid token''), [draft_post, live_post])"
    using h7 C3_get_by_slug [where seg = "''all''" and rest = "''all''" and t = "''expired''"
        and posts = "[draft_post, live_post]" and jwt_verify = sample_verify
        and authorization = "Some ''Bearer expired''" and lowercase = toLowerCase
        and decodeURIComponent = sample_decode and b = "()"]
    by blast
  from r0 r1 r2 r3 r4 r5 r6 r7 pub show ?thesis by simp
qed







section \<open>Properties of the list routes\<close>

lemma date_le_total: "date_le x y \<or> date_le y x"
  by (cases x; cases y) auto

lemma date_le_trans: "date_le x y \<Longrightarrow> date_le y z \<Longrightarrow> date_le x z"
  by (cases x; cases y; cases z) auto

lemma sorted_by_order: "sorted_wrt by_order (sort_docs by_order ds)"
  by (rule sorted_sort_docs) (auto simp: by_order_def)

lemma sorted_by_order_createdAt: "sorted_wrt by_order_createdAt (sort_docs by_order_createdAt ds)"
  by (rule sorted_sort_docs) (auto simp: by_order_createdAt_def)

lemma sorted_by_order_startDate: "sorted_wrt by_order_startDate (sort_docs by_order_startDate ds)"
  by (rule sorted_sort_docs) (auto simp: by_order_startDate_def)

lemma sorted_by_publishedAt: "sorted_wrt by_publishedAt (sort_docs by_publishedAt ds)"
  by (rule sorted_sort_docs) (auto simp: by_publishedAt_def date_le_total intro: date_le_trans)

text \<open>
  C7, as stated: for every collection, LIST returns all stored documents sorted by
  \<^verbatim>\<open>order\<close> ascending. The public list of blog posts leaves out every post that is not
  published (and sorts by \<^verbatim>\<open>publishedAt\<close>, not by \<^verbatim>\<open>order\<close>).
\<close>

theorem C7_blog_list_counterexample:
  "get_blog [draft_post] = Response 200 (Data (Posts []))
   \<and> get_blog [draft_post] \<noteq> Response 200 (Data (Posts [draft_post]))"
  by (simp add: get_blog_def draft_post_def sort_docs_def)

text \<open>
  C7, amended: the list routes of photography, videos, skills, courses and creatives
  return all the stored documents sorted by \<^verbatim>\<open>order\<close> ascending; the projects route
  breaks ties by \<^verbatim>\<open>createdAt\<close> descending; the experience route breaks ties by
  \<^verbatim>\<open>startDate\<close> descending and, alone among the routes, takes a filter: given a
  non-empty \<^verbatim>\<open>type\<close> it returns exactly the documents whose type equals it. The public
  blog list returns exactly the published posts, sorted by \<^verbatim>\<open>publishedAt\<close> descending.
\<close>

theorem C7_lists:
  "(\<exists>xs. get_collection docs = Response 200 (Data xs) \<and> mset xs = mset docs
        \<and> sorted_wrt (\<lambda>a b. order a \<le> order b) xs)
   \<and> (\<exists>xs. get_projects docs = Response 200 (Data xs) \<and> mset xs = mset docs
        \<and> sorted_wrt (\<lambda>a b. order a < order b \<or> (order a = order b \<and> createdAt b \<le> createdAt a)) xs)
   \<and> (\<exists>xs. get_experience query_type exps = Response 200 (Data xs)
        \<and> mset xs = mset (if query_type = None \<or> query_type = Some [] then exps
                           else filter (\<lambda>d. Some (type d) = query_type) exps)
        \<and> sorted_wrt (\<lambda>a b. order a < order b \<or> (order a = order b \<and> startDate b \<le> startDate a)) xs)
   \<and> (\<exists>xs. get_blog posts = Response 200 (Data (Posts xs)) \<and> mset xs = mset (filter published posts)
        \<and> sorted_wrt (\<lambda>a b. date_le (publishedAt b) (publishedAt a)) xs)"
proof (intro conjI)
  show "\<exists>xs. get_collection docs = Response 200 (Data xs) \<and> mset xs = mset docs
        \<and> sorted_wrt (\<lambda>a b. order a \<le> order b) xs"
    using sorted_by_order [of docs]
    by (simp add: get_collection_def mset_sort_docs by_order_def [abs_def])
  show "\<exists>xs. get_projects docs = Response 200 (Data xs) \<and> mset xs = mset docs
        \<and> sorted_wrt (\<lambda>a b. order a < order b \<or> (order a = order b \<and> createdAt b \<le> createdAt a)) xs"
    using sorted_by_order_createdAt [of docs]
    by (simp add: get_projects_def mset_sort_docs by_order_createdAt_def [abs_def])
  show "\<exists>xs. get_experience query_type exps = Response 200 (Data xs)
        \<and> mset xs = mset (if query_type = None \<or> query_type = Some [] then exps
                           else filter (\<lambda>d. Some (type d) = query_type) exps)
        \<and> sorted_wrt (\<lambda>a b. order a < order b \<or> (order a = order b \<and> startDate b \<le> startDate a)) xs"
  proof (cases query_type)
    case None
    then show ?thesis
      using sorted_by_order_startDate [of exps]
      by (simp add: get_experience_def mset_sort_docs by_order_startDate_def [abs_def])
  next
    case (Some t)
    then show ?thesis
      using sorted_by_order_startDate [of exps] sorted_by_order_startDate [of "filter (\<lambda>d. type d = t) exps"]
      by (simp add: get_experience_def mset_sort_docs by_order_startDate_def [abs_def])
  qed
  show "\<exists>xs. get_blog posts = Response 200 (Data (Posts xs)) \<and> mset xs = mset (filter published posts)
        \<and> sorted_wrt (\<lambda>a b. date_le (publishedAt b) (publishedAt a)) xs"
    using sorted_by_publishedAt [of "filter published posts"]
    by (simp add: get_blog_def mset_sort_docs by_publishedAt_def [abs_def])
qed

section \<open>Properties of the batch reorder\<close>

lemma map_untouched:
  "i \<notin> oid ` set ds \<Longrightarrow> map (\<lambda>d. if oid d = i then f d else d) ds = ds"
  by (induction ds) auto

lemma findByIdAndUpdate_map:
  "distinct (map oid docs) \<Longrightarrow>
   snd (findByIdAndUpdate now docs i upd)
     = map (\<lambda>d. if oid d = i then (upd d)\<lparr>updatedAt := now\<rparr> else d) docs"
  by (induction docs) (auto simp: map_untouched split: prod.splits)

lemma oid_touched: "oid (touched now item d) = oid d"
  by (auto simp: touched_def split: json_field.splits)

lemma update_order_map:
  "distinct (map oid docs) \<Longrightarrow> snd (update_order now item docs) = map (touched now item) docs"
  by (auto simp: update_order_def touched_def [abs_def] findByIdAndUpdate_map split: json_field.splits)

lemma update_orders_map:
  "distinct (map oid docs) \<Longrightarrow>
   snd (update_orders now items docs) = map (fold (touched now) items) docs"
proof (induction items arbitrary: docs)
  case Nil
  then show ?case by simp
next
  case (Cons item items)
  let ?docs1 = "map (touched now item) docs"
  have "map oid ?docs1 = map oid docs"
    by (simp add: oid_touched comp_def)
  with Cons.prems have "distinct (map oid ?docs1)" by (simp only:)
  from Cons.IH [OF this] update_order_map [OF Cons.prems, of now item]
  show ?case
    by (auto split: prod.splits)
qed

lemma fst_update_orders:
  "fst (update_orders now items docs)
     = map (\<lambda>item. case (item_id item, item_order item) of
                      (Castable i, Castable n) \<Rightarrow> None
                    | _ \<Rightarrow> Some CastError) items"
proof (induction items arbitrary: docs)
  case Nil
  then show ?case by simp
next
  case (Cons item items)
  obtain o1 d1 where s1: "update_order now item docs = (o1, d1)"
    by (cases "update_order now item docs")
  obtain os d2 where s2: "update_orders now items d1 = (os, d2)"
    by (cases "update_orders now items d1")
  from s1 have "o1 = (case (item_id item, item_order item) of
                      (Castable i, Castable n) \<Rightarrow> None
                    | _ \<Rightarrow> Some CastError)"
    by (auto simp: update_order_def split: json_field.splits)
  moreover from s2 Cons.IH [of d1] have "os = map (\<lambda>item. case (item_id item, item_order item) of
                      (Castable i, Castable n) \<Rightarrow> None
                    | _ \<Rightarrow> Some CastError) items"
    by simp
  ultimately show ?case using s1 s2 by simp
qed

lemma fold_touched_unnamed:
  "oid d \<notin> fst ` set (assignments items) \<Longrightarrow> fold (touched now) items d = d"
  by (induction items arbitrary: d)
    (auto simp: touched_def assignments_def split: json_field.splits)

lemma fold_touched_named:
  "oid d \<in> fst ` set (assignments items) \<Longrightarrow>
   \<exists>n. (oid d, n) \<in> set (assignments items)
     \<and> fold (touched now) items d = d\<lparr>order := n, updatedAt := now\<rparr>"
proof (induction items arbitrary: d)
  case Nil
  then show ?case by (simp add: assignments_def)
next
  case (Cons item items)
  have split: "assignments (item # items) = assignments [item] @ assignments items"
    by (simp add: assignments_def)
  let ?d1 = "touched now item d"
  have o1: "oid ?d1 = oid d" by (simp add: oid_touched)
  show ?case
  proof (cases "oid d \<in> fst ` set (assignments items)")
    case True
    with o1 have "oid ?d1 \<in> fst ` set (assignments items)" by simp
    from Cons.IH [OF this] obtain n where n: "(oid d, n) \<in> set (assignments items)"
      "fold (touched now) items ?d1 = ?d1\<lparr>order := n, updatedAt := now\<rparr>"
      using o1 by auto
    have "?d1\<lparr>order := n, updatedAt := now\<rparr> = d\<lparr>order := n, updatedAt := now\<rparr>"
      by (auto simp: touched_def split: json_field.splits)
    with n split show ?thesis by auto
  next
    case False
    with o1 have "fold (touched now) items ?d1 = ?d1"
      using fold_touched_unnamed [of ?d1 items now] by simp
    from False Cons.prems split have "oid d \<in> fst ` set (assignments [item])"
      by auto
    then have "\<exists>n. item_id item = Castable (oid d) \<and> item_order item = Castable n"
      by (cases "item_id item"; cases "item_order item") (auto simp: assignments_def)
    then obtain n where n: "item_id item = Castable (oid d)" "item_order item = Castable n"
      by blast
    then have d1: "?d1 = d\<lparr>order := n, updatedAt := now\<rparr>"
      by (simp add: touched_def)
    from n have "(oid d, n) \<in> set (assignments (item # items))"
      by (simp add: assignments_def)
    moreover have "fold (touched now) (item # items) d = d\<lparr>order := n, updatedAt := now\<rparr>"
      using calculation d1 \<open>fold (touched now) items ?d1 = ?d1\<close> by simp
    ultimately show ?thesis by blast
  qed
qed

lemma find_failure:
  "find (\<lambda>outcome. outcome \<noteq> None)
     (map (\<lambda>item. case (item_id item, item_order item) of
                      (Castable i, Castable n) \<Rightarrow> None
                    | _ \<Rightarrow> Some CastError) items)
   = (if length (assignments items) = length items then None else Some (Some CastError))"
proof (induction items)
  case Nil
  then show ?case by (simp add: assignments_def)
next
  case (Cons item items)
  have le: "length (assignments items) \<le> length items"
    by (induction items) (auto simp: assignments_def split: json_field.splits)
  have split: "assignments (item # items) = assignments [item] @ assignments items"
    by (simp add: assignments_def)
  show ?case
    using Cons le unfolding split
    by (auto simp: assignments_def split: json_field.splits)
qed

text \<open>
  C8, amended: in a store with unique ids, a REORDER batch answers 200 when every item
  casts and 400 with the CastError of a failing item otherwise, and in both cases every
  item that casts has been applied: a document that no castable item names is unchanged;
  a document that one names has the \<^verbatim>\<open>order\<close> of such an item and \<^verbatim>\<open>updatedAt\<close> the
  current time, and every other field as before. No document is added or removed.
\<close>

theorem C8_reorder:
  "distinct (map oid docs) \<and> reorder_handler now (Some items) docs = (resp, docs') \<longrightarrow>
     list_all2 (\<lambda>d d'.
         oid d' = oid d \<and> createdAt d' = createdAt d \<and> doc.more d' = doc.more d
         \<and> (if oid d \<in> fst ` set (assignments items)
            then updatedAt d' = now \<and> (oid d, order d') \<in> set (assignments items)
            else d' = d)) docs docs'
     \<and> resp = (if length (assignments items) = length items then Response 200 (Message ''Updated'')
               else Response 400 (ErrorMessage CastError))"
proof (intro impI)
  assume a: "distinct (map oid docs) \<and> reorder_handler now (Some items) docs = (resp, docs')"
  obtain outcomes ds where uo: "update_orders now items docs = (outcomes, ds)"
    by (cases "update_orders now items docs")
  from a uo have ds: "docs' = ds"
    by (auto simp: reorder_handler_def split: option.splits)
  from uo a have dm: "ds = map (fold (touched now) items) docs"
    using update_orders_map [of docs now items] by simp
  from uo have oc: "outcomes = map (\<lambda>item. case (item_id item, item_order item) of
                      (Castable i, Castable n) \<Rightarrow> None
                    | _ \<Rightarrow> Some CastError) items"
    using fst_update_orders [of now items docs] by simp
  have frame: "list_all2 (\<lambda>d d'.
         oid d' = oid d \<and> createdAt d' = createdAt d \<and> doc.more d' = doc.more d
         \<and> (if oid d \<in> fst ` set (assignments items)
            then updatedAt d' = now \<and> (oid d, order d') \<in> set (assignments items)
            else d' = d)) docs docs'"
    unfolding ds dm list_all2_map2
  proof (rule list_all2_refl)
    fix d :: "'a doc_scheme"
    show "oid (fold (touched now) items d) = oid d
       \<and> createdAt (fold (touched now) items d) = createdAt d
       \<and> doc.more (fold (touched now) items d) = doc.more d
       \<and> (if oid d \<in> fst ` set (assignments items)
          then updatedAt (fold (touched now) items d) = now
             \<and> (oid d, order (fold (touched now) items d)) \<in> set (assignments items)
          else fold (touched now) items d = d)"
    proof (cases "oid d \<in> fst ` set (assignments items)")
      case True
      from fold_touched_named [OF this, of now] obtain n where
        "(oid d, n) \<in> set (assignments items)"
        "fold (touched now) items d = d\<lparr>order := n, updatedAt := now\<rparr>"
        by blast
      with True show ?thesis by simp
    next
      case False
      with fold_touched_unnamed [OF this, of now] show ?thesis by simp
    qed
  qed
  have fnd: "find (\<lambda>outcome. outcome \<noteq> None) outcomes
      = (if length (assignments items) = length items then None else Some (Some CastError))"
    unfolding oc by (rule find_failure)
  from a uo have "(case find (\<lambda>outcome. outcome \<noteq> None) outcomes of
                  Some (Some e) \<Rightarrow> (Response 400 (ErrorMessage e), ds)
                | _ \<Rightarrow> (Response 200 (Message ''Updated''), ds)) = (resp, docs')"
    by (simp add: reorder_handler_def)
  then have "resp = (if length (assignments items) = length items then Response 200 (Message ''Updated'')
               else Response 400 (ErrorMessage CastError))"
    unfolding fnd by (auto split: if_splits)
  with frame show "list_all2 (\<lambda>d d'.
         oid d' = oid d \<and> createdAt d' = createdAt d \<and> doc.more d' = doc.more d
         \<and> (if oid d \<in> fst ` set (assignments items)
            then updatedAt d' = now \<and> (oid d, order d') \<in> set (assignments items)
            else d' = d)) docs docs'
     \<and> resp = (if length (assignments items) = length items then Response 200 (Message ''Updated'')
               else Response 400 (ErrorMessage CastError))"
    by simp
qed

text \<open>
  C8, as stated: an applied update changes only the \<^verbatim>\<open>order\<close> field of its document.
  The schema's timestamps option makes the update set \<^verbatim>\<open>updatedAt\<close> as well.
\<close>

theorem C8_updatedAt_counterexample:
  "snd (reorder_handler 100 (Some [good_item]) [sample_doc]) = [sample_doc\<lparr>order := 3, updatedAt := 100\<rparr>]
   \<and> updatedAt sample_doc = 10"
  by (simp add: reorder_handler_def update_order_def good_item_def sample_doc_def)

theorem C8_reorder_witness:
  "reorder_handler 100 (Some [good_item, bad_item]) [sample_doc, other_doc]
     = (Response 400 (ErrorMessage CastError), [sample_doc\<lparr>order := 3, updatedAt := 100\<rparr>, other_doc])
   \<and> list_all2 (\<lambda>d d'.
         oid d' = oid d \<and> createdAt d' = createdAt d \<and> doc.more d' = doc.more d
         \<and> (if oid d \<in> fst ` set (assignments [good_item, bad_item])
            then updatedAt d' = 100 \<and> (oid d, order d') \<in> set (assignments [good_item, bad_item])
            else d' = d))
       [sample_doc, other_doc] [sample_doc\<lparr>order := 3, updatedAt := 100\<rparr>, other_doc]"
proof -
  have h: "distinct (map oid [sample_doc, other_doc])
      \<and> reorder_handler 100 (Some [good_item, bad_item]) [sample_doc, other_doc]
        = (Response 400 (ErrorMessage CastError), [sample_doc\<lparr>order := 3, updatedAt := 100\<rparr>, other_doc])"
    by (simp add: reorder_handler_def update_order_def good_item_def bad_item_def sample_doc_def
        other_doc_def)
  then show ?thesis
    using C8_reorder [where docs = "[sample_doc, other_doc]" and now = 100
        and items = "[good_item, bad_item]" and resp = "Response 400 (ErrorMessage CastError)"
        and docs' = "[sample_doc\<lparr>order := 3, updatedAt := 100\<rparr>, other_doc]"]
    by blast
qed

section \<open>Properties of the code renderer\<close>

text \<open>
  C10, as stated: if highlighting throws, the output falls back to the HTML-escaped
  plain text of the code. When the highlighter of a declared and recognized language
  throws, the renderer turns to automatic detection, and the block shows what the
  detection returns.
\<close>

theorem C10_fallback_counterexample:
  \<open>highlight failing_hljs (js ''a<b'') (js ''js'') = None
   \<and> code failing_hljs (js ''a<b'') (Some (js ''js''))
     = Some (js ''<div class="code-block-wrapper"><span class="code-lang-label">js</span><pre><code class="hljs language-js"><span>AUTO</span></code></pre></div>'')
   \<and> code failing_hljs (js ''a<b'') (Some (js ''js''))
     \<noteq> Some (js ''<div class="code-block-wrapper"><span class="code-lang-label">js</span><pre><code class="hljs language-js">a&lt;b</code></pre></div>'')\<close>
  by (simp add: code_def highlighted_def failing_hljs_def declared_def lang_text_def langLabel_def js_def)

text \<open>
  C10, amended: when a language is declared and recognized, the block is highlighted with
  that language, and with automatic detection when that highlighter throws; otherwise
  automatic detection is used, and the HTML-escaped plain text of the code when the
  detection throws; the block carries the language label exactly when a language is
  declared (recognized or not).
\<close>

theorem C10_code:
  \<open>(declared lang \<and> getLanguage h (lang_text lang) \<and> highlight h codeStr (lang_text lang) = Some v \<longrightarrow>
      code h codeStr lang
        = Some (js ''<div class="code-block-wrapper">'' @ langLabel lang @ js ''<pre><code class="hljs language-''
                @ lang_text lang @ js ''">'' @ v @ js ''</code></pre></div>''))
   \<and> (declared lang \<and> getLanguage h (lang_text lang) \<and> highlight h codeStr (lang_text lang) = None
        \<and> highlightAuto h codeStr = Some v \<longrightarrow>
      code h codeStr lang
        = Some (js ''<div class="code-block-wrapper">'' @ langLabel lang @ js ''<pre><code class="hljs language-''
                @ lang_text lang @ js ''">'' @ v @ js ''</code></pre></div>''))
   \<and> (\<not> (declared lang \<and> getLanguage h (lang_text lang)) \<longrightarrow>
      code h codeStr lang
        = Some (js ''<div class="code-block-wrapper">'' @ langLabel lang @ js ''<pre><code class="hljs''
                @ (if declared lang then js '' language-'' @ lang_text lang else [])
                @ js ''">''
                @ (case highlightAuto h codeStr of Some v \<Rightarrow> v | None \<Rightarrow> escape_html codeStr)
                @ js ''</code></pre></div>''))
   \<and> (langLabel lang = (if declared lang
                          then js ''<span class="code-lang-label">'' @ lang_text lang @ js ''</span>''
                          else []))
   \<and> (langLabel lang \<noteq> [] \<longleftrightarrow> declared lang)\<close>
  by (auto simp: code_def highlighted_def langLabel_def js_def split: option.splits)

theorem C10_code_witness:
  \<open>code failing_hljs (js ''a<b'') (Some (js ''js''))
     = Some (js ''<div class="code-block-wrapper">'' @ langLabel (Some (js ''js''))
             @ js ''<pre><code class="hljs language-'' @ js ''js'' @ js ''">'' @ js ''<span>AUTO</span>''
             @ js ''</code></pre></div>'')
   \<and> code broken_hljs (js ''a<b'') None
     = Some (js ''<div class="code-block-wrapper"><pre><code class="hljs">a&lt;b</code></pre></div>'')\<close>
proof -
  have h1: "declared (Some (js ''js'')) \<and> getLanguage failing_hljs (lang_text (Some (js ''js'')))
      \<and> highlight failing_hljs (js ''a<b'') (lang_text (Some (js ''js''))) = None
      \<and> highlightAuto failing_hljs (js ''a<b'') = Some (js ''<span>AUTO</span>'')"
    by (simp add: declared_def lang_text_def failing_hljs_def js_def)
  have h2: "\<not> (declared None \<and> getLanguage broken_hljs (lang_text None))"
    by (simp add: declared_def)
  have r1: \<open>code failing_hljs (js ''a<b'') (Some (js ''js''))
     = Some (js ''<div class="code-block-wrapper">'' @ langLabel (Some (js ''js''))
             @ js ''<pre><code class="hljs language-'' @ lang_text (Some (js ''js'')) @ js ''">''
             @ js ''<span>AUTO</span>'' @ js ''</code></pre></div>'')\<close>
    using h1 C10_code [where lang = "Some (js ''js'')" and h = failing_hljs and codeStr = "js ''a<b''"
        and v = "js ''<span>AUTO</span>''"]
    by blast
  have r2: \<open>code broken_hljs (js ''a<b'') None
        = Some (js ''<div class="code-block-wrapper">'' @ langLabel None @ js ''<pre><code class="hljs''
                @ (if declared None then js '' language-'' @ lang_text None else [])
                @ js ''">''
                @ (case highlightAuto broken_hljs (js ''a<b'') of Some v \<Rightarrow> v | None \<Rightarrow> escape_html (js ''a<b''))
                @ js ''</code></pre></div>'')\<close>
    using h2 C10_code [where lang = None and h = broken_hljs and codeStr = "js ''a<b''"]
    by blast
  from r1 r2 show ?thesis
    by (simp add: declared_def lang_text_def langLabel_def broken_hljs_def escape_html_def
        replace_char_def js_def)
qed

section \<open>Properties of the admonition preprocessor\<close>

text \<open>The definitions a concrete run of the preprocessor unfolds.\<close>

lemmas eval_defs = preprocessAdmonitions_def replace_def segments.simps admonition_regex_def delimiter_def plus_of_def opt_def js_def
  isLineTerminator_def isWhiteSpace_def isWordChar_def remaining_def admonition_def capture_def
  ADMONITION_TYPES_def ADMONITION_ICONS_def toLowerCase_def toUpperCase_def trim_def sample_random_def

text \<open>
  A match ends at a position of the input it started from: what the continuation is
  given is what is left of the input after the text the match has consumed.
\<close>

lemma advance_refl: "advance x [] x"
  by (simp add: advance_def)

lemma advance_trans: "advance x m y \<Longrightarrow> advance y m' z \<Longrightarrow> advance x (m @ m') z"
  by (auto simp: advance_def)

lemma matcher_consumes:
  "matcher r x k = Some res \<Longrightarrow> \<exists>y m. k y = Some res \<and> advance x m y"
proof (induction r x k arbitrary: res rule: matcher.induct)
  case (1 cs p s g k)
  then show ?case
  proof (cases s)
    case Nil
    with 1 show ?thesis by simp
  next
    case (Cons c s')
    with 1 have "k (Some c, s', g) = Some res" by (simp split: if_splits)
    with Cons show ?thesis
      by (intro exI [where x = "(Some c, s', g)"] exI [where x = "[c]"]) (simp add: advance_def)
  qed
next
  case (2 p s g k)
  then have "k (p, s, g) = Some res" by (simp split: option.splits if_splits)
  then show ?case using advance_refl by blast
next
  case (3 p s g k)
  then have "k (p, s, g) = Some res" by (simp split: list.splits if_splits)
  then show ?case using advance_refl by blast
next
  case (4 x k)
  then have "k x = Some res" by simp
  then show ?case using advance_refl by blast
next
  case (5 a b x k)
  from "5.prems" have "matcher a x (\<lambda>y. matcher b y k) = Some res" by simp
  from "5.IH"(2) [OF this] obtain y m where y: "matcher b y k = Some res" "advance x m y"
    by blast
  from "5.IH"(1) [OF y(1)] obtain z m' where "k z = Some res" "advance y m' z"
    by blast
  with y advance_trans show ?case by blast
next
  case (6 a b x k)
  show ?case
  proof (cases "matcher a x k")
    case None
    with "6.prems" have "matcher b x k = Some res" by simp
    from "6.IH"(2) [OF None this] show ?thesis .
  next
    case (Some r)
    with "6.prems" have "matcher a x k = Some res" by simp
    from "6.IH"(1) [OF this] show ?thesis .
  qed
next
  case (7 r x k)
  let ?K = "\<lambda>y. if remaining y < remaining x then matcher (Star r) y k else None"
  show ?case
  proof (cases "matcher r x ?K")
    case None
    with "7.prems" have "k x = Some res" by simp
    then show ?thesis using advance_refl by blast
  next
    case (Some r')
    with "7.prems" have "matcher r x ?K = Some res" by simp
    from "7.IH"(2) [OF this] obtain y m where y: "?K y = Some res" "advance x m y"
      by blast
    then have lt: "remaining y < remaining x" and st: "matcher (Star r) y k = Some res"
      by (auto split: if_splits)
    from "7.IH"(1) [OF lt st] obtain z m' where "k z = Some res" "advance y m' z"
      by blast
    with y advance_trans show ?thesis by blast
  qed
next
  case (8 r x k)
  let ?K = "\<lambda>y. if remaining y < remaining x then matcher (Lazy r) y k else None"
  show ?case
  proof (cases "k x")
    case (Some r')
    with "8.prems" have "k x = Some res" by simp
    then show ?thesis using advance_refl by blast
  next
    case None
    with "8.prems" have "matcher r x ?K = Some res" by simp
    from "8.IH"(2) [OF None this] obtain y m where y: "?K y = Some res" "advance x m y"
      by blast
    then have lt: "remaining y < remaining x" and st: "matcher (Lazy r) y k = Some res"
      by (auto split: if_splits)
    from "8.IH"(1) [OF None lt st] obtain z m' where "k z = Some res" "advance y m' z"
      by blast
    with y advance_trans show ?thesis by blast
  qed
next
  case (9 n r p s g k)
  from "9.prems" have "matcher r (p, s, g)
      (\<lambda>(p', s', g'). k (p', s', g'(n \<mapsto> take (length s - length s') s))) = Some res"
    by simp
  from "9.IH" [OF this] obtain y m where
    y: "(\<lambda>(p', s', g'). k (p', s', g'(n \<mapsto> take (length s - length s') s))) y = Some res"
      "advance (p, s, g) m y"
    by blast
  obtain p' s' g' where yy: "y = (p', s', g')" by (cases y)
  with y have "k (p', s', g'(n \<mapsto> take (length s - length s') s)) = Some res"
    "advance (p, s, g) m (p', s', g'(n \<mapsto> take (length s - length s') s))"
    by (simp_all add: advance_def)
  then show ?case by blast
qed

lemma match_advance:
  assumes "matcher re (p, s, Map.empty) Some = Some (p', s', g)"
  shows "advance (p, s, Map.empty) (take (length s - length s') s) (p', s', g)"
proof -
  from matcher_consumes [OF assms] obtain m where "advance (p, s, Map.empty) m (p', s', g)"
    by auto
  moreover from this have "take (length s - length s') s = m"
    by (simp add: advance_def)
  ultimately show ?thesis by simp
qed

lemma match_is_prefix:
  "matcher re (p, s, Map.empty) Some = Some (p', s', g) \<Longrightarrow> take (length s - length s') s @ s' = s"
  using match_advance [of re p s p' s' g] by (simp add: advance_def)

lemma segments_no_match:
  "matcher re (p, s, Map.empty) Some = None \<Longrightarrow>
   segments re p s = (case s of [] \<Rightarrow> [] | c # cs \<Rightarrow> Unmatched c # segments re (Some c) cs)"
  by (subst segments.simps) simp

lemma segments_match:
  "matcher re (p, s, Map.empty) Some = Some (p', s', g) \<Longrightarrow>
   segments re p s =
     Matched (take (length s - length s') s) g #
       (if length s' < length s then segments re p' s'
        else (case s of [] \<Rightarrow> [] | c # cs \<Rightarrow> Unmatched c # segments re (Some c) cs))"
  by (subst segments.simps) simp

text \<open>A callback that returns each match as it is gives the text back.\<close>

lemma substitute_segments:
  "substitute (\<lambda>m g st. (m, st)) (segments re p s) st = s"
proof (induction re p s rule: segments.induct)
  case (1 re p s)
  show ?case
  proof (cases "matcher re (p, s, Map.empty) Some")
    case None
    show ?thesis
    proof (cases s)
      case Nil
      with None show ?thesis by (simp add: segments_no_match)
    next
      case (Cons c cs)
      from "1.IH"(1) [OF None Cons] have "substitute (\<lambda>m g st. (m, st)) (segments re (Some c) cs) st = cs" .
      with None Cons show ?thesis by (simp add: segments_no_match)
    qed
  next
    case (Some x)
    obtain p' s' g where x: "x = (p', s', g)" by (cases x)
    from Some x have m: "matcher re (p, s, Map.empty) Some = Some (p', s', g)" by simp
    from m have pre: "take (length s - length s') s @ s' = s"
      by (rule match_is_prefix)
    show ?thesis
    proof (cases "length s' < length s")
      case True
      from "1.IH"(2) [OF Some x [symmetric] refl True]
      have "substitute (\<lambda>m g st. (m, st)) (segments re p' s') st = s'" .
      with True pre show ?thesis
        unfolding segments_match [OF m] by simp
    next
      case False
      with pre have e: "take (length s - length s') s = []" by simp
      show ?thesis
      proof (cases s)
        case Nil
        with False e show ?thesis
          unfolding segments_match [OF m] by simp
      next
        case (Cons c cs)
        from "1.IH"(3) [OF Some x [symmetric] refl False Cons]
        have "substitute (\<lambda>m g st. (m, st)) (segments re (Some c) cs) st = cs" .
        with False e Cons show ?thesis
          unfolding segments_match [OF m] by simp
      qed
    qed
  qed
qed

lemma substitute_unrecognized:
  "\<forall>kw \<in> set (block_keywords segs). toLowerCase kw \<notin> set ADMONITION_TYPES \<Longrightarrow>
   substitute (\<lambda>match g n. admonition random match (capture g 1) (g 2) (capture g 3) n) segs n
     = substitute (\<lambda>m g st. (m, st)) segs n"
proof (induction segs arbitrary: n)
  case Nil
  then show ?case by simp
next
  case (Cons seg segs)
  then show ?case
    by (cases seg) (simp_all add: admonition_def)
qed


text \<open>
  What the replacement does to a text, segment by segment: each character outside the
  matches is emitted as it is, and each match is replaced by what the callback returns
  for it; the segments are the text, cut.
\<close>

lemma substitute_outs:
  "\<exists>outs. list_all2 (\<lambda>seg out. case seg of
                  Unmatched c \<Rightarrow> out = [c]
                | Matched m g \<Rightarrow> \<exists>st. out = fst (f m g st)) segs outs
     \<and> substitute f segs st = concat outs"
proof (induction segs arbitrary: st)
  case Nil
  show ?case by simp
next
  case (Cons seg segs)
  show ?case
  proof (cases seg)
    case (Unmatched c)
    from Cons [of st] obtain outs where
      o: "list_all2 (\<lambda>seg out. case seg of
                  Unmatched c \<Rightarrow> out = [c]
                | Matched m g \<Rightarrow> \<exists>st. out = fst (f m g st)) segs outs"
      "substitute f segs st = concat outs"
      by auto
    with Unmatched have "list_all2 (\<lambda>seg out. case seg of
                  Unmatched c \<Rightarrow> out = [c]
                | Matched m g \<Rightarrow> \<exists>st. out = fst (f m g st)) (seg # segs) ([c] # outs)
        \<and> substitute f (seg # segs) st = concat ([c] # outs)"
      by simp
    then show ?thesis by (rule_tac x = "[c] # outs" in exI)
  next
    case (Matched m g)
    obtain out st' where f: "f m g st = (out, st')" by (cases "f m g st")
    from Cons [of st'] obtain outs where
      o: "list_all2 (\<lambda>seg out. case seg of
                  Unmatched c \<Rightarrow> out = [c]
                | Matched m g \<Rightarrow> \<exists>st. out = fst (f m g st)) segs outs"
      "substitute f segs st' = concat outs"
      by auto
    from f have "\<exists>st. out = fst (f m g st)" by (rule_tac x = st in exI) simp
    with Matched o f have "list_all2 (\<lambda>seg out. case seg of
                  Unmatched c \<Rightarrow> out = [c]
                | Matched m g \<Rightarrow> \<exists>st. out = fst (f m g st)) (seg # segs) (out # outs)
        \<and> substitute f (seg # segs) st = concat (out # outs)"
      by simp
    then show ?thesis by (rule_tac x = "out # outs" in exI)
  qed
qed

lemma admonition_outs:
  "\<exists>outs. list_all2 (\<lambda>seg out. case seg of
                  Unmatched c \<Rightarrow> out = [c]
                | Matched m g \<Rightarrow>
                    if toLowerCase (capture g 1) \<in> set ADMONITION_TYPES
                    then \<exists>n. out = fst (admonition random m (capture g 1) (g 2) (capture g 3) n)
                    else out = m)
              (segments admonition_regex None markdown) outs
     \<and> preprocessAdmonitions random markdown = concat outs"
proof -
  let ?f = "\<lambda>match g n. admonition random match (capture g 1) (g 2) (capture g 3) n"
  from substitute_outs [of ?f "segments admonition_regex None markdown" 0]
  obtain outs where o: "list_all2 (\<lambda>seg out. case seg of
                  Unmatched c \<Rightarrow> out = [c]
                | Matched m g \<Rightarrow> \<exists>st. out = fst (?f m g st)) (segments admonition_regex None markdown) outs"
    and s: "substitute ?f (segments admonition_regex None markdown) 0 = concat outs"
    by auto
  have "list_all2 (\<lambda>seg out. case seg of
                  Unmatched c \<Rightarrow> out = [c]
                | Matched m g \<Rightarrow>
                    if toLowerCase (capture g 1) \<in> set ADMONITION_TYPES
                    then \<exists>n. out = fst (admonition random m (capture g 1) (g 2) (capture g 3) n)
                    else out = m)
              (segments admonition_regex None markdown) outs"
    using o
  proof (rule list_all2_mono)
    fix seg out
    assume "case seg of Unmatched c \<Rightarrow> out = [c]
                | Matched m g \<Rightarrow> \<exists>st. out = fst (?f m g st)"
    then show "case seg of
                  Unmatched c \<Rightarrow> out = [c]
                | Matched m g \<Rightarrow>
                    if toLowerCase (capture g 1) \<in> set ADMONITION_TYPES
                    then \<exists>n. out = fst (admonition random m (capture g 1) (g 2) (capture g 3) n)
                    else out = m"
      by (cases seg) (auto simp: admonition_def)
  qed
  with s show ?thesis
    unfolding preprocessAdmonitions_def replace_def
    by (rule_tac x = outs in exI) simp
qed

lemma segments_source:
  "concat (map (\<lambda>seg. case seg of Unmatched c \<Rightarrow> [c] | Matched m g \<Rightarrow> m) (segments re p s)) = s"
proof -
  have "substitute (\<lambda>m g st. (m, st)) segs st
      = concat (map (\<lambda>seg. case seg of Unmatched c \<Rightarrow> [c] | Matched m g \<Rightarrow> m) segs)" for segs and st :: unit
    by (induction segs) (auto split: segment.splits)
  from this [of "segments re p s" "()"] substitute_segments [of re p s "()"]
  show ?thesis by simp
qed

text \<open>
  C4: the preprocessor turns the input \<^verbatim>\<open>:::warning Careful\nDo not do X\n:::\<close> into a
  container with the title \<^verbatim>\<open>Careful\<close> and the body \<^verbatim>\<open>Do not do X\<close> (whatever random
  id it draws), and the same block written \<^verbatim>\<open>!!! Warning\<close> into the same container;
  the keyword counts through its lower-case form only, so the match
  against the recognized set is case-insensitive; the callback returns a block whose
  keyword is not recognized as it is; a text all of whose blocks have unrecognized
  keywords comes out unchanged, delimiters included; and in every text, whatever other
  blocks it holds, the output is the text with each block whose keyword is recognized
  replaced by a container: the characters outside the blocks and every block whose
  keyword is not recognized are emitted as they are, in their places.
\<close>

theorem C4_admonitions:
  \<open>preprocessAdmonitions random (js '':::warning Careful\<newline>Do not do X\<newline>:::'')
     = js ''\<newline><div class="admonition admonition-warning" data-admonition="'' @ random 0
       @ js ''"><p class="admonition-title">'' @ [9888, 65039]
       @ js '' Careful</p>\<newline>\<newline>Do not do X\<newline>\<newline></div>\<newline>''
   \<and> preprocessAdmonitions random (js ''!!! Warning Careful\<newline>Do not do X\<newline>!!!'')
     = preprocessAdmonitions random (js '':::warning Careful\<newline>Do not do X\<newline>:::'')
   \<and> (toLowerCase kw = toLowerCase kw' \<longrightarrow>
        admonition random m kw t b n = admonition random m kw' t b n)
   \<and> (toLowerCase kw \<notin> set ADMONITION_TYPES \<longrightarrow> admonition random m kw t b n = (m, n))
   \<and> ((\<forall>k \<in> set (block_keywords (segments admonition_regex None markdown)).
          toLowerCase k \<notin> set ADMONITION_TYPES) \<longrightarrow>
        preprocessAdmonitions random markdown = markdown)
   \<and> concat (map (\<lambda>seg. case seg of Unmatched c \<Rightarrow> [c] | Matched block g \<Rightarrow> block)
        (segments admonition_regex None markdown)) = markdown
   \<and> (\<exists>outs.
        list_all2 (\<lambda>seg out. case seg of
                      Unmatched c \<Rightarrow> out = [c]
                    | Matched block g \<Rightarrow>
                        if toLowerCase (capture g 1) \<in> set ADMONITION_TYPES
                        then \<exists>n. out = fst (admonition random block (capture g 1) (g 2) (capture g 3) n)
                        else out = block)
          (segments admonition_regex None markdown) outs
        \<and> preprocessAdmonitions random markdown = concat outs)\<close>
proof (intro conjI impI)
  show \<open>preprocessAdmonitions random (js '':::warning Careful\<newline>Do not do X\<newline>:::'')
     = js ''\<newline><div class="admonition admonition-warning" data-admonition="'' @ random 0
       @ js ''"><p class="admonition-title">'' @ [9888, 65039]
       @ js '' Careful</p>\<newline>\<newline>Do not do X\<newline>\<newline></div>\<newline>''\<close>
    by (simp add: eval_defs)
next
  show "preprocessAdmonitions random (js ''!!! Warning Careful\<newline>Do not do X\<newline>!!!'')
     = preprocessAdmonitions random (js '':::warning Careful\<newline>Do not do X\<newline>:::'')"
    by (simp add: eval_defs)
next
  assume "toLowerCase kw = toLowerCase kw'"
  then show "admonition random m kw t b n = admonition random m kw' t b n"
    by (simp add: admonition_def)
next
  assume "toLowerCase kw \<notin> set ADMONITION_TYPES"
  then show "admonition random m kw t b n = (m, n)"
    by (simp add: admonition_def)
next
  assume "\<forall>k \<in> set (block_keywords (segments admonition_regex None markdown)).
          toLowerCase k \<notin> set ADMONITION_TYPES"
  then show "preprocessAdmonitions random markdown = markdown"
    unfolding preprocessAdmonitions_def replace_def
    by (simp only: substitute_unrecognized substitute_segments)
next
  show "concat (map (\<lambda>seg. case seg of Unmatched c \<Rightarrow> [c] | Matched block g \<Rightarrow> block)
        (segments admonition_regex None markdown)) = markdown"
    by (rule segments_source)
next
  show "\<exists>outs.
        list_all2 (\<lambda>seg out. case seg of
                      Unmatched c \<Rightarrow> out = [c]
                    | Matched block g \<Rightarrow>
                        if toLowerCase (capture g 1) \<in> set ADMONITION_TYPES
                        then \<exists>n. out = fst (admonition random block (capture g 1) (g 2) (capture g 3) n)
                        else out = block)
          (segments admonition_regex None markdown) outs
        \<and> preprocessAdmonitions random markdown = concat outs"
    by (rule admonition_outs)
qed

lemma potato_segments:
  "block_keywords (segments admonition_regex None (js '':::potato\<newline>Do not do X\<newline>:::''))
     = [js ''potato'']"
  by (simp add: eval_defs)

lemma mixed_segments:
  \<open>segments admonition_regex None (js '':::note\<newline>A\<newline>:::\<newline>:::potato\<newline>B\<newline>:::'')
    = [Matched (js '':::note\<newline>A\<newline>:::'') [1 \<mapsto> js ''note'', 3 \<mapsto> js ''A\<newline>''],
       Unmatched 10,
       Matched (js '':::potato\<newline>B\<newline>:::'') [1 \<mapsto> js ''potato'', 3 \<mapsto> js ''B\<newline>'']]\<close>
  by (simp add: eval_defs)

theorem C4_admonitions_witness:
  \<open>preprocessAdmonitions sample_random (js '':::potato\<newline>Do not do X\<newline>:::'')
     = js '':::potato\<newline>Do not do X\<newline>:::''
   \<and> admonition sample_random (js ''x'') (js ''Potato'') None (js ''y'') 0 = (js ''x'', 0)
   \<and> admonition sample_random (js ''x'') (js ''WARNING'') None (js ''y'') 0
     = admonition sample_random (js ''x'') (js ''warning'') None (js ''y'') 0
   \<and> preprocessAdmonitions sample_random (js '':::note\<newline>A\<newline>:::\<newline>:::potato\<newline>B\<newline>:::'')
     = js ''\<newline><div class="admonition admonition-note" data-admonition="k3j9x2ab"><p class="admonition-title">''
       @ [8505, 65039] @ js '' Note</p>\<newline>\<newline>A\<newline>\<newline></div>\<newline>''
       @ js ''\<newline>:::potato\<newline>B\<newline>:::''\<close>
proof -
  have h1: "\<forall>k \<in> set (block_keywords (segments admonition_regex None
        (js '':::potato\<newline>Do not do X\<newline>:::''))). toLowerCase k \<notin> set ADMONITION_TYPES"
    unfolding potato_segments by (simp add: eval_defs)
  have h2: "toLowerCase (js ''Potato'') \<notin> set ADMONITION_TYPES"
    by (simp add: eval_defs)
  have h3: "toLowerCase (js ''WARNING'') = toLowerCase (js ''warning'')"
    by (simp add: eval_defs)
  have r1: "preprocessAdmonitions sample_random (js '':::potato\<newline>Do not do X\<newline>:::'')
     = js '':::potato\<newline>Do not do X\<newline>:::''"
    using h1 C4_admonitions [where markdown = "js '':::potato\<newline>Do not do X\<newline>:::''"
        and random = sample_random]
    by blast
  have r2: "admonition sample_random (js ''x'') (js ''Potato'') None (js ''y'') 0 = (js ''x'', 0)"
    using h2 C4_admonitions [where kw = "js ''Potato''" and random = sample_random and m = "js ''x''"
        and t = None and b = "js ''y''" and n = 0]
    by blast
  have r3: "admonition sample_random (js ''x'') (js ''WARNING'') None (js ''y'') 0
     = admonition sample_random (js ''x'') (js ''warning'') None (js ''y'') 0"
    using h3 C4_admonitions [where kw = "js ''WARNING''" and kw' = "js ''warning''"
        and random = sample_random and m = "js ''x''" and t = None and b = "js ''y''" and n = 0]
    by blast
  have \<open>\<exists>outs.
        list_all2 (\<lambda>seg out. case seg of
                      Unmatched c \<Rightarrow> out = [c]
                    | Matched block g \<Rightarrow>
                        if toLowerCase (capture g 1) \<in> set ADMONITION_TYPES
                        then \<exists>n. out = fst (admonition sample_random block (capture g 1) (g 2) (capture g 3) n)
                        else out = block)
          (segments admonition_regex None (js '':::note\<newline>A\<newline>:::\<newline>:::potato\<newline>B\<newline>:::'')) outs
        \<and> preprocessAdmonitions sample_random (js '':::note\<newline>A\<newline>:::\<newline>:::potato\<newline>B\<newline>:::'')
          = concat outs\<close>
    by (rule C4_admonitions [where markdown = \<open>js '':::note\<newline>A\<newline>:::\<newline>:::potato\<newline>B\<newline>:::''\<close>
        and random = sample_random, THEN conjunct2, THEN conjunct2, THEN conjunct2, THEN conjunct2,
        THEN conjunct2, THEN conjunct2])
  then have r4: \<open>preprocessAdmonitions sample_random (js '':::note\<newline>A\<newline>:::\<newline>:::potato\<newline>B\<newline>:::'')
     = js ''\<newline><div class="admonition admonition-note" data-admonition="k3j9x2ab"><p class="admonition-title">''
       @ [8505, 65039] @ js '' Note</p>\<newline>\<newline>A\<newline>\<newline></div>\<newline>''
       @ js ''\<newline>:::potato\<newline>B\<newline>:::''\<close>
    unfolding mixed_segments
    by (auto simp: list_all2_Cons1 eval_defs)
  from r1 r2 r3 r4 show ?thesis by (intro conjI)
qed

text \<open>How the pieces of the admonition pattern run on a block.\<close>

lemma matcher_delimiter:
  assumes "d = js '':::'' \<or> d = js ''!!!''"
  shows "matcher delimiter (p, d @ s, g) k = k (Some (last d), s, g)"
  using assms by (auto simp: delimiter_def js_def split: option.splits)

lemma matcher_delimiter_fails:
  "c \<noteq> 58 \<Longrightarrow> c \<noteq> 33 \<Longrightarrow> matcher delimiter (p, c # s, g) k = None"
  by (simp add: delimiter_def js_def)

lemma matcher_spaces_none:
  "s = [] \<or> hd s \<noteq> 32 \<Longrightarrow> matcher (Star (Chr (Only 32))) (p, s, g) k = k (p, s, g)"
  by (cases s) auto

lemma matcher_words:
  "\<forall>c \<in> set w. isWordChar c \<Longrightarrow> s = [] \<or> \<not> isWordChar (hd s) \<Longrightarrow>
   k (if w = [] then p else Some (last w), s, g) = Some res \<Longrightarrow>
   matcher (Star (Chr Word)) (p, w @ s, g) k = Some res"
proof (induction w arbitrary: p)
  case Nil
  then show ?case by (cases s) auto
next
  case (Cons c w)
  from Cons.prems have "k (if w = [] then Some c else Some (last w), s, g) = Some res"
    by (simp split: if_splits)
  with Cons.IH [of "Some c"] Cons.prems
  have "matcher (Star (Chr Word)) (Some c, w @ s, g) k = Some res" by simp
  with Cons.prems show ?case
    by (subst matcher.simps) (simp add: remaining_def del: matcher.simps(7))
qed

lemma matcher_body:
  "\<forall>c \<in> set b. c \<noteq> 58 \<and> c \<noteq> 33 \<Longrightarrow>
   \<forall>p' c s' g'. c \<noteq> 58 \<and> c \<noteq> 33 \<longrightarrow> k (p', c # s', g') = None \<Longrightarrow>
   k (if b = [] then p else Some (last b), s, g) = Some res \<Longrightarrow>
   matcher (Lazy (Chr Every)) (p, b @ s, g) k = Some res"
proof (induction b arbitrary: p)
  case Nil
  then show ?case by simp
next
  case (Cons c b)
  from Cons.prems have "k (if b = [] then Some c else Some (last b), s, g) = Some res"
    by (simp split: if_splits)
  with Cons.IH [of "Some c"] Cons.prems
  have "matcher (Lazy (Chr Every)) (Some c, b @ s, g) k = Some res" by simp
  moreover from Cons.prems have "k (p, c # b @ s, g) = None" by simp
  ultimately show ?case
    by (subst matcher.simps) (simp add: remaining_def del: matcher.simps(8))
qed


lemma delimiter_last:
  "d = js '':::'' \<or> d = js ''!!!'' \<Longrightarrow> d \<noteq> [] \<and> (last d = 58 \<or> last d = 33)"
  by (auto simp: js_def)

lemma admonition_match:
  assumes d1: "d1 = js '':::'' \<or> d1 = js ''!!!''"
    and d2: "d2 = js '':::'' \<or> d2 = js ''!!!''"
    and kw: "kw \<noteq> []" "\<forall>c \<in> set kw. isWordChar c"
    and b: "\<forall>c \<in> set b. c \<noteq> 58 \<and> c \<noteq> 33"
  shows "matcher admonition_regex (None, d1 @ kw @ 10 # b @ d2, Map.empty) Some
    = Some (Some (last d2), [], [1 \<mapsto> kw, 3 \<mapsto> b])"
proof -
  define k9 where "k9 = (\<lambda>y. matcher EOL y Some)"
  define k8 where "k8 = (\<lambda>y. matcher (Star (Chr Space)) y k9)"
  define k7 where "k7 = (\<lambda>y. matcher delimiter y k8)"
  define k6 where "k6 = (\<lambda>y. matcher (Group 3 (Lazy (Chr Every))) y k7)"
  define k5 where "k5 = (\<lambda>y. matcher (Chr (Only 10)) y k6)"
  define k4 where "k4 = (\<lambda>y. matcher (opt (Seq (plus_of (Chr (Only 32))) (Group 2 (plus_of (Chr Dot))))) y k5)"
  define k3 where "k3 = (\<lambda>y. matcher (Group 1 (plus_of (Chr Word))) y k4)"
  define k2 where "k2 = (\<lambda>y. matcher (Star (Chr (Only 32))) y k3)"
  define k1 where "k1 = (\<lambda>y. matcher delimiter y k2)"
  have chain: "matcher admonition_regex x Some = matcher BOL x k1" for x
    unfolding admonition_regex_def k1_def k2_def k3_def k4_def k5_def k6_def k7_def k8_def k9_def
    by (simp only: matcher.simps(5))
  have s9: "k9 (p, [], g) = Some (p, [], g)" for p g
    by (simp add: k9_def)
  have s8: "k8 (p, [], g) = Some (p, [], g)" for p g
    by (simp add: k8_def s9)
  have s7: "k7 (p, d2, g) = Some (Some (last d2), [], g)" for p g
    using matcher_delimiter [OF d2, of p "[]" g k8] by (simp add: k7_def s8)
  have f7: "k7 (p, c # s, g) = None" if "c \<noteq> 58 \<and> c \<noteq> 33" for p c s g
    using that by (simp add: k7_def matcher_delimiter_fails)
  let ?K3 = "\<lambda>(p', s', g'). k7 (p', s', g'(3 \<mapsto> take (length (b @ d2) - length s') (b @ d2)))"
  have "matcher (Lazy (Chr Every)) (Some 10, b @ d2, [1 \<mapsto> kw]) ?K3
      = Some (Some (last d2), [], [1 \<mapsto> kw, 3 \<mapsto> b])"
  proof (rule matcher_body [OF b])
    show "\<forall>p' c s' g'. c \<noteq> 58 \<and> c \<noteq> 33 \<longrightarrow> ?K3 (p', c # s', g') = None"
      by (simp add: f7)
    show "?K3 (if b = [] then Some 10 else Some (last b), d2, [1 \<mapsto> kw])
      = Some (Some (last d2), [], [1 \<mapsto> kw, 3 \<mapsto> b])"
      using s7 [of "if b = [] then Some 10 else Some (last b)" "[1 \<mapsto> kw, 3 \<mapsto> b]"] by simp
  qed
  then have s6: "k6 (Some 10, b @ d2, [1 \<mapsto> kw]) = Some (Some (last d2), [], [1 \<mapsto> kw, 3 \<mapsto> b])"
    unfolding k6_def by (simp only: matcher.simps(9))
  have s5: "k5 (p, 10 # b @ d2, [1 \<mapsto> kw]) = Some (Some (last d2), [], [1 \<mapsto> kw, 3 \<mapsto> b])" for p
    using s6 by (simp add: k5_def)
  have s4: "k4 (p, 10 # b @ d2, [1 \<mapsto> kw]) = Some (Some (last d2), [], [1 \<mapsto> kw, 3 \<mapsto> b])" for p
    using s5 [of p] by (simp add: k4_def opt_def plus_of_def)
  from kw obtain c w where cw: "kw = c # w" by (cases kw) auto
  let ?rest = "10 # b @ d2"
  let ?K1 = "\<lambda>(p', s', g'). k4 (p', s', g'(1 \<mapsto> take (length (kw @ ?rest) - length s') (kw @ ?rest)))"
  have nw: "\<not> isWordChar 10" by (simp add: isWordChar_def)
  have "matcher (Star (Chr Word)) (Some c, w @ ?rest, Map.empty) ?K1
      = Some (Some (last d2), [], [1 \<mapsto> kw, 3 \<mapsto> b])"
  proof (rule matcher_words)
    show "\<forall>c \<in> set w. isWordChar c" using kw cw by simp
    show "?rest = [] \<or> \<not> isWordChar (hd ?rest)" using nw by simp
    show "?K1 (if w = [] then Some c else Some (last w), ?rest, Map.empty)
      = Some (Some (last d2), [], [1 \<mapsto> kw, 3 \<mapsto> b])"
      using s4 [of "if w = [] then Some c else Some (last w)"] by (simp add: cw)
  qed
  moreover have "isWordChar c" using kw cw by simp
  ultimately have s3: "k3 (p, kw @ ?rest, Map.empty) = Some (Some (last d2), [], [1 \<mapsto> kw, 3 \<mapsto> b])" for p
    unfolding k3_def plus_of_def cw
    by (simp del: matcher.simps(7))
  have "c \<noteq> 32" using \<open>isWordChar c\<close> by (auto simp: isWordChar_def)
  then have s2: "k2 (p, kw @ ?rest, Map.empty) = Some (Some (last d2), [], [1 \<mapsto> kw, 3 \<mapsto> b])" for p
    using matcher_spaces_none [of "kw @ ?rest" p Map.empty k3] s3 [of p]
    by (simp add: k2_def cw)
  have s1: "k1 (None, d1 @ kw @ ?rest, Map.empty) = Some (Some (last d2), [], [1 \<mapsto> kw, 3 \<mapsto> b])"
    using matcher_delimiter [OF d1, of None "kw @ ?rest" Map.empty k2] s2
    by (simp add: k1_def)
  show ?thesis
    unfolding chain using s1 by simp
qed

lemma admonition_segments:
  assumes d1: "d1 = js '':::'' \<or> d1 = js ''!!!''"
    and d2: "d2 = js '':::'' \<or> d2 = js ''!!!''"
    and kw: "kw \<noteq> []" "\<forall>c \<in> set kw. isWordChar c"
    and b: "\<forall>c \<in> set b. c \<noteq> 58 \<and> c \<noteq> 33"
  shows "segments admonition_regex None (d1 @ kw @ 10 # b @ d2)
    = [Matched (d1 @ kw @ 10 # b @ d2) [1 \<mapsto> kw, 3 \<mapsto> b]]"
proof -
  from delimiter_last [OF d2] have "\<not> isLineTerminator (last d2)"
    by (auto simp: isLineTerminator_def)
  then have "matcher admonition_regex (Some (last d2), [], Map.empty) Some = None"
    by (simp add: admonition_regex_def)
  then have "segments admonition_regex (Some (last d2)) [] = []"
    by (simp add: segments_no_match)
  then show ?thesis
    unfolding segments_match [OF admonition_match [OF assms]]
    by simp
qed

lemma icons_not_empty:
  "map_of ADMONITION_ICONS k = Some icon \<Longrightarrow> k \<in> set ADMONITION_TYPES \<and> icon \<noteq> []"
proof -
  assume a: "map_of ADMONITION_ICONS k = Some icon"
  then have m: "(k, icon) \<in> set ADMONITION_ICONS" by (rule map_of_SomeD)
  then have "k \<in> set ADMONITION_TYPES"
    unfolding ADMONITION_TYPES_def by force
  moreover have "\<forall>(k, i) \<in> set ADMONITION_ICONS. i \<noteq> []"
    by (simp add: ADMONITION_ICONS_def)
  with m have "icon \<noteq> []" by blast
  ultimately show ?thesis by simp
qed

text \<open>
  What a match of the admonition pattern looks like: it starts at the beginning of a
  line with a delimiter, and it ends with a delimiter and white space at the end of a
  line.
\<close>

lemma delimiter_shape:
  assumes "matcher delimiter (p, s, g) k = Some res"
  shows "\<exists>d s'. (d = js '':::'' \<or> d = js ''!!!'') \<and> s = d @ s' \<and> k (Some (last d), s', g) = Some res"
proof (cases "matcher (lit (js '':::'')) (p, s, g) k")
  case (Some r)
  with assms have r: "r = res" by (simp add: delimiter_def)
  from Some obtain s' where "s = js '':::'' @ s'" "k (Some 58, s', g) = Some r"
    by (auto simp: js_def split: list.splits if_splits)
  with r show ?thesis by (auto simp: js_def)
next
  case None
  with assms have "matcher (lit (js ''!!!'')) (p, s, g) k = Some res"
    by (simp add: delimiter_def)
  then obtain s' where "s = js ''!!!'' @ s'" "k (Some 33, s', g) = Some res"
    by (auto simp: js_def split: list.splits if_splits)
  then show ?thesis by (auto simp: js_def)
qed

lemma star_class_shape:
  "matcher (Star (Chr cs)) (p, s, g) k = Some res \<Longrightarrow>
   \<exists>w s'. s = w @ s' \<and> (\<forall>c \<in> set w. in_cset cs c)
     \<and> k (if w = [] then p else Some (last w), s', g) = Some res"
proof (induction s arbitrary: p)
  case Nil
  then have "k (p, [], g) = Some res"
    by (subst (asm) matcher.simps) (simp del: matcher.simps(7))
  then show ?case
    by (rule_tac x = "[]" in exI, rule_tac x = "[]" in exI) simp
next
  case (Cons c s)
  from Cons.prems have unf:
    "(case (if in_cset cs c then matcher (Star (Chr cs)) (Some c, s, g) k else None) of
        Some r \<Rightarrow> Some r
      | None \<Rightarrow> k (p, c # s, g)) = Some res"
    by (subst (asm) matcher.simps)
      (auto simp add: remaining_def simp del: matcher.simps(7) split: if_splits option.splits)
  have stop: ?case if "k (p, c # s, g) = Some res"
    using that by (rule_tac x = "[]" in exI, rule_tac x = "c # s" in exI) simp
  show ?case
  proof (cases "in_cset cs c")
    case False
    with unf have "k (p, c # s, g) = Some res" by (simp del: matcher.simps(7))
    then show ?thesis by (rule stop)
  next
    case True
    show ?thesis
    proof (cases "matcher (Star (Chr cs)) (Some c, s, g) k")
      case None
      with True unf have "k (p, c # s, g) = Some res" by (simp del: matcher.simps(7))
      then show ?thesis by (rule stop)
    next
      case (Some r)
      with True unf have "matcher (Star (Chr cs)) (Some c, s, g) k = Some res"
        by (simp del: matcher.simps(7))
      from Cons.IH [OF this] obtain w s' where w: "s = w @ s'" "\<forall>c \<in> set w. in_cset cs c"
        "k (if w = [] then Some c else Some (last w), s', g) = Some res"
        by auto
      with True have "c # s = (c # w) @ s' \<and> (\<forall>x \<in> set (c # w). in_cset cs x)
         \<and> k (if c # w = [] then p else Some (last (c # w)), s', g) = Some res"
        by (cases "w = []") simp_all
      then show ?thesis
        by (rule_tac x = "c # w" in exI, rule_tac x = s' in exI)
    qed
  qed
qed

lemma match_shape:
  assumes "matcher admonition_regex (p, s, Map.empty) Some = Some (p', s', g)"
  shows "(p = None \<or> (\<exists>c. p = Some c \<and> isLineTerminator c))
    \<and> (\<exists>d1 mid d2 ws. (d1 = js '':::'' \<or> d1 = js ''!!!'') \<and> (d2 = js '':::'' \<or> d2 = js ''!!!'')
          \<and> (\<forall>c \<in> set ws. isWhiteSpace c) \<and> s = d1 @ mid @ d2 @ ws @ s')
    \<and> (s' = [] \<or> isLineTerminator (hd s'))"
proof -
  define k9 where "k9 = (\<lambda>y. matcher EOL y Some)"
  define k8 where "k8 = (\<lambda>y. matcher (Star (Chr Space)) y k9)"
  define k7 where "k7 = (\<lambda>y. matcher delimiter y k8)"
  define middle where "middle = Seq (Star (Chr (Only 32))) (Seq (Group 1 (plus_of (Chr Word)))
       (Seq (opt (Seq (plus_of (Chr (Only 32))) (Group 2 (plus_of (Chr Dot)))))
         (Seq (Chr (Only 10)) (Group 3 (Lazy (Chr Every))))))"
  define k2 where "k2 = (\<lambda>y. matcher middle y k7)"
  define k1 where "k1 = (\<lambda>y. matcher delimiter y k2)"
  have chain: "matcher admonition_regex x Some = matcher BOL x k1" for x
    unfolding admonition_regex_def k1_def k2_def middle_def k7_def k8_def k9_def
    by (simp only: matcher.simps(5))
  from assms have m0: "matcher BOL (p, s, Map.empty) k1 = Some (p', s', g)"
    by (simp only: chain)
  then have bol: "p = None \<or> (\<exists>c. p = Some c \<and> isLineTerminator c)"
    and m1: "k1 (p, s, Map.empty) = Some (p', s', g)"
    by (auto split: option.splits if_splits)
  from m1 have "matcher delimiter (p, s, Map.empty) k2 = Some (p', s', g)"
    by (simp add: k1_def)
  from delimiter_shape [OF this] obtain d1 s1 where d1: "d1 = js '':::'' \<or> d1 = js ''!!!''"
    and s1: "s = d1 @ s1" and m2: "k2 (Some (last d1), s1, Map.empty) = Some (p', s', g)"
    by blast
  from m2 have "matcher middle (Some (last d1), s1, Map.empty) k7 = Some (p', s', g)"
    by (simp add: k2_def)
  from matcher_consumes [OF this] obtain y mid where m7: "k7 y = Some (p', s', g)"
    and adv: "advance (Some (last d1), s1, Map.empty) mid y"
    by blast
  obtain p6 s6 g6 where y: "y = (p6, s6, g6)" by (cases y)
  from adv y have s6: "s1 = mid @ s6" by (simp add: advance_def)
  from m7 y have "matcher delimiter (p6, s6, g6) k8 = Some (p', s', g)"
    by (simp add: k7_def)
  from delimiter_shape [OF this] obtain d2 s7 where d2: "d2 = js '':::'' \<or> d2 = js ''!!!''"
    and s7: "s6 = d2 @ s7" and m8: "k8 (Some (last d2), s7, g6) = Some (p', s', g)"
    by blast
  from m8 have "matcher (Star (Chr Space)) (Some (last d2), s7, g6) k9 = Some (p', s', g)"
    by (simp add: k8_def)
  from star_class_shape [OF this] obtain ws s8 where s8: "s7 = ws @ s8"
    and ws: "\<forall>c \<in> set ws. isWhiteSpace c"
    and m9: "k9 (if ws = [] then Some (last d2) else Some (last ws), s8, g6) = Some (p', s', g)"
    by auto
  from m9 have e: "s8 = s'" "s' = [] \<or> isLineTerminator (hd s')"
    by (auto simp: k9_def split: list.splits if_splits)
  from s1 s6 s7 s8 e have "s = d1 @ mid @ d2 @ ws @ s'" by simp
  with bol d1 d2 ws e show ?thesis by blast
qed

lemma segments_matched:
  "Matched m g \<in> set (segments re p s) \<Longrightarrow>
   \<exists>pre post p'. s = pre @ m @ post
     \<and> matcher re (if pre = [] then p else Some (last pre), m @ post, Map.empty) Some
         = Some (p', post, g)"
proof (induction re p s rule: segments.induct)
  case (1 re p s)
  have skip: "\<exists>pre post p'. s = pre @ m @ post
     \<and> matcher re (if pre = [] then p else Some (last pre), m @ post, Map.empty) Some
         = Some (p', post, g)"
    if s: "s = c # cs"
      and ih: "\<exists>pre post p'. cs = pre @ m @ post
        \<and> matcher re (if pre = [] then Some c else Some (last pre), m @ post, Map.empty) Some
            = Some (p', post, g)" for c cs
  proof -
    from ih obtain pre post p' where "cs = pre @ m @ post"
      "matcher re (if pre = [] then Some c else Some (last pre), m @ post, Map.empty) Some
         = Some (p', post, g)"
      by blast
    with s have "s = (c # pre) @ m @ post
      \<and> matcher re (if c # pre = [] then p else Some (last (c # pre)), m @ post, Map.empty) Some
          = Some (p', post, g)"
      by (cases "pre = []") simp_all
    then show ?thesis by blast
  qed
  show ?case
  proof (cases "matcher re (p, s, Map.empty) Some")
    case None
    show ?thesis
    proof (cases s)
      case Nil
      with None "1.prems" show ?thesis by (simp add: segments_no_match)
    next
      case (Cons c cs)
      with None "1.prems" have "Matched m g \<in> set (segments re (Some c) cs)"
        by (simp add: segments_no_match)
      from "1.IH"(1) [OF None Cons this] skip [OF Cons] show ?thesis by blast
    qed
  next
    case (Some x)
    obtain p' s' g0 where x: "x = (p', s', g0)" by (cases x)
    from Some x have mt: "matcher re (p, s, Map.empty) Some = Some (p', s', g0)" by simp
    let ?m0 = "take (length s - length s') s"
    from match_advance [OF mt] have adv: "s = ?m0 @ s'" "p' = (if ?m0 = [] then p else Some (last ?m0))"
      by (simp_all add: advance_def)
    from "1.prems" have mem: "Matched m g = Matched ?m0 g0
      \<or> Matched m g \<in> set (if length s' < length s then segments re p' s'
             else (case s of [] \<Rightarrow> [] | c # cs \<Rightarrow> Unmatched c # segments re (Some c) cs))"
      unfolding segments_match [OF mt] by simp
    show ?thesis
    proof (cases "Matched m g = Matched ?m0 g0")
      case True
      then have "m = ?m0" "g = g0" by simp_all
      with mt adv(1) have "s = [] @ m @ s'
        \<and> matcher re (if [] = [] then p else Some (last []), m @ s', Map.empty) Some = Some (p', s', g)"
        by simp
      then show ?thesis by blast
    next
      case False
      show ?thesis
      proof (cases "length s' < length s")
        case True
        with mem False have "Matched m g \<in> set (segments re p' s')" by auto
        from "1.IH"(2) [OF Some x [symmetric] refl True this] obtain pre post q where
          ih: "s' = pre @ m @ post"
          "matcher re (if pre = [] then p' else Some (last pre), m @ post, Map.empty) Some
             = Some (q, post, g)"
          by blast
        from True adv(1) have ne: "?m0 \<noteq> []" by auto
        with adv(2) have "p' = Some (last ?m0)" by simp
        with ih ne have "matcher re (if ?m0 @ pre = [] then p else Some (last (?m0 @ pre)),
            m @ post, Map.empty) Some = Some (q, post, g)"
          by (cases "pre = []") simp_all
        moreover from adv(1) ih(1) have "s = (?m0 @ pre) @ m @ post" by simp
        ultimately show ?thesis by blast
      next
        case nlt: False
        show ?thesis
        proof (cases s)
          case Nil
          with mem False nlt show ?thesis by auto
        next
          case (Cons c cs)
          with mem False nlt have "Matched m g \<in> set (segments re (Some c) cs)" by auto
          from "1.IH"(3) [OF Some x [symmetric] refl nlt Cons this] skip [OF Cons] show ?thesis
            by blast
        qed
      qed
    qed
  qed
qed

text \<open>
  C5, amended: a text that consists of an opening delimiter in either spelling, a
  recognized keyword, a line feed, a body without the characters \<^verbatim>\<open>:\<close> and \<^verbatim>\<open>!\<close>, and
  a closing delimiter in either spelling is rewritten into the container of its
  keyword, with the trimmed body: the closing delimiter need not have the spelling of
  the opening one, and it need not stand on a line of its own (the body may end without
  a line feed). And only such regions are candidates: every region of a text that the
  pattern matches starts at the beginning of a line with \<^verbatim>\<open>:::\<close> or \<^verbatim>\<open>!!!\<close>, and ends
  with \<^verbatim>\<open>:::\<close> or \<^verbatim>\<open>!!!\<close> followed by white space only, at the end of a line.
\<close>

theorem C5_delimiters:
  \<open>((opener = js '':::'' \<or> opener = js ''!!!'') \<and> (closer = js '':::'' \<or> closer = js ''!!!'')
      \<and> kw \<noteq> [] \<and> (\<forall>c \<in> set kw. isWordChar c)
      \<and> map_of ADMONITION_ICONS (toLowerCase kw) = Some icon
      \<and> (\<forall>c \<in> set b. c \<noteq> 58 \<and> c \<noteq> 33) \<longrightarrow>
      preprocessAdmonitions random (opener @ kw @ [10] @ b @ closer)
        = js ''\<newline><div class="admonition admonition-'' @ toLowerCase kw
          @ js ''" data-admonition="'' @ random 0
          @ js ''"><p class="admonition-title">'' @ icon @ js '' ''
          @ toUpperCase (take 1 (toLowerCase kw)) @ drop 1 (toLowerCase kw)
          @ js ''</p>\<newline>\<newline>'' @ trim b @ js ''\<newline>\<newline></div>\<newline>'')
   \<and> (Matched m g \<in> set (segments admonition_regex None markdown) \<longrightarrow>
      (\<exists>pre post d1 mid d2 ws.
          markdown = pre @ m @ post \<and> m = d1 @ mid @ d2 @ ws
          \<and> (pre = [] \<or> isLineTerminator (last pre))
          \<and> (d1 = js '':::'' \<or> d1 = js ''!!!'') \<and> (d2 = js '':::'' \<or> d2 = js ''!!!'')
          \<and> (\<forall>c \<in> set ws. isWhiteSpace c)
          \<and> (post = [] \<or> isLineTerminator (hd post))))\<close>
proof (intro conjI impI)
  assume a: "(opener = js '':::'' \<or> opener = js ''!!!'') \<and> (closer = js '':::'' \<or> closer = js ''!!!'')
   \<and> kw \<noteq> [] \<and> (\<forall>c \<in> set kw. isWordChar c)
   \<and> map_of ADMONITION_ICONS (toLowerCase kw) = Some icon
   \<and> (\<forall>c \<in> set b. c \<noteq> 58 \<and> c \<noteq> 33)"
  then have seg: "segments admonition_regex None (opener @ kw @ 10 # b @ closer)
    = [Matched (opener @ kw @ 10 # b @ closer) [1 \<mapsto> kw, 3 \<mapsto> b]]"
    using admonition_segments [of opener closer kw b] by blast
  from a icons_not_empty [of "toLowerCase kw" icon]
  have ic: "toLowerCase kw \<in> set ADMONITION_TYPES" "icon \<noteq> []"
    "map_of ADMONITION_ICONS (toLowerCase kw) = Some icon"
    by simp_all
  show \<open>preprocessAdmonitions random (opener @ kw @ [10] @ b @ closer)
     = js ''\<newline><div class="admonition admonition-'' @ toLowerCase kw
       @ js ''" data-admonition="'' @ random 0
       @ js ''"><p class="admonition-title">'' @ icon @ js '' ''
       @ toUpperCase (take 1 (toLowerCase kw)) @ drop 1 (toLowerCase kw)
       @ js ''</p>\<newline>\<newline>'' @ trim b @ js ''\<newline>\<newline></div>\<newline>''\<close>
    using seg ic
    by (simp add: preprocessAdmonitions_def replace_def admonition_def capture_def Let_def)
next
  assume "Matched m g \<in> set (segments admonition_regex None markdown)"
  from segments_matched [OF this] obtain pre post p' where
    md: "markdown = pre @ m @ post"
    and mt: "matcher admonition_regex (if pre = [] then None else Some (last pre), m @ post, Map.empty) Some
         = Some (p', post, g)"
    by blast
  from match_shape [OF mt] obtain d1 mid d2 ws where
    st: "pre = [] \<or> isLineTerminator (last pre)"
    and sh: "d1 = js '':::'' \<or> d1 = js ''!!!''" "d2 = js '':::'' \<or> d2 = js ''!!!''"
      "\<forall>c \<in> set ws. isWhiteSpace c" "m @ post = d1 @ mid @ d2 @ ws @ post"
    and en: "post = [] \<or> isLineTerminator (hd post)"
    by (auto split: if_splits)
  from sh(4) have "m = d1 @ mid @ d2 @ ws" by simp
  with md st sh en show "\<exists>pre post d1 mid d2 ws.
          markdown = pre @ m @ post \<and> m = d1 @ mid @ d2 @ ws
          \<and> (pre = [] \<or> isLineTerminator (last pre))
          \<and> (d1 = js '':::'' \<or> d1 = js ''!!!'') \<and> (d2 = js '':::'' \<or> d2 = js ''!!!'')
          \<and> (\<forall>c \<in> set ws. isWhiteSpace c)
          \<and> (post = [] \<or> isLineTerminator (hd post))"
    by blast
qed

theorem C5_delimiters_witness:
  \<open>preprocessAdmonitions sample_random (js '':::Note\<newline>body !!!'')
     = js ''\<newline><div class="admonition admonition-note" data-admonition="k3j9x2ab"><p class="admonition-title">''
       @ [8505, 65039] @ js '' Note</p>\<newline>\<newline>body\<newline>\<newline></div>\<newline>''
   \<and> Matched (js '':::Note\<newline>body !!!'') [1 \<mapsto> js ''Note'', 3 \<mapsto> js ''body '']
       \<in> set (segments admonition_regex None (js '':::Note\<newline>body !!!''))
   \<and> (\<exists>pre post d1 mid d2 ws.
          js '':::Note\<newline>body !!!'' = pre @ js '':::Note\<newline>body !!!'' @ post
          \<and> js '':::Note\<newline>body !!!'' = d1 @ mid @ d2 @ ws
          \<and> (pre = [] \<or> isLineTerminator (last pre))
          \<and> (d1 = js '':::'' \<or> d1 = js ''!!!'') \<and> (d2 = js '':::'' \<or> d2 = js ''!!!'')
          \<and> (\<forall>c \<in> set ws. isWhiteSpace c)
          \<and> (post = [] \<or> isLineTerminator (hd post)))\<close>
proof -
  have h: "(js '':::'' = js '':::'' \<or> js '':::'' = js ''!!!'') \<and> (js ''!!!'' = js '':::'' \<or> js ''!!!'' = js ''!!!'')
   \<and> js ''Note'' \<noteq> [] \<and> (\<forall>c \<in> set (js ''Note''). isWordChar c)
   \<and> map_of ADMONITION_ICONS (toLowerCase (js ''Note'')) = Some [8505, 65039]
   \<and> (\<forall>c \<in> set (js ''body ''). c \<noteq> 58 \<and> c \<noteq> 33)"
    by (simp add: js_def isWordChar_def ADMONITION_ICONS_def toLowerCase_def)
  have r: \<open>preprocessAdmonitions sample_random (js '':::'' @ js ''Note'' @ [10] @ js ''body '' @ js ''!!!'')
     = js ''\<newline><div class="admonition admonition-'' @ toLowerCase (js ''Note'')
       @ js ''" data-admonition="'' @ sample_random 0
       @ js ''"><p class="admonition-title">'' @ [8505, 65039] @ js '' ''
       @ toUpperCase (take 1 (toLowerCase (js ''Note''))) @ drop 1 (toLowerCase (js ''Note''))
       @ js ''</p>\<newline>\<newline>'' @ trim (js ''body '') @ js ''\<newline>\<newline></div>\<newline>''\<close>
    using h C5_delimiters [where opener = "js '':::''" and closer = "js ''!!!''" and kw = "js ''Note''"
        and icon = "[8505, 65039]" and b = "js ''body ''" and random = sample_random]
    by blast
  have e: "js '':::'' @ js ''Note'' @ [10] @ js ''body '' @ js ''!!!'' = js '':::Note\<newline>body !!!''"
    by (simp add: js_def)
  have e': "js '':::'' @ js ''Note'' @ 10 # js ''body '' @ js ''!!!'' = js '':::Note\<newline>body !!!''"
    by (simp add: js_def)
  from r have first: \<open>preprocessAdmonitions sample_random (js '':::Note\<newline>body !!!'')
     = js ''\<newline><div class="admonition admonition-note" data-admonition="k3j9x2ab"><p class="admonition-title">''
       @ [8505, 65039] @ js '' Note</p>\<newline>\<newline>body\<newline>\<newline></div>\<newline>''\<close>
    unfolding e
    by (simp add: js_def toLowerCase_def toUpperCase_def trim_def isWhiteSpace_def isLineTerminator_def
        sample_random_def)
  have "segments admonition_regex None (js '':::'' @ js ''Note'' @ 10 # js ''body '' @ js ''!!!'')
    = [Matched (js '':::'' @ js ''Note'' @ 10 # js ''body '' @ js ''!!!'') [1 \<mapsto> js ''Note'', 3 \<mapsto> js ''body '']]"
    using h admonition_segments [of "js '':::''" "js ''!!!''" "js ''Note''" "js ''body ''"]
    by blast
  then have seg: \<open>segments admonition_regex None (js '':::Note\<newline>body !!!'')
    = [Matched (js '':::Note\<newline>body !!!'') [1 \<mapsto> js ''Note'', 3 \<mapsto> js ''body '']]\<close>
    unfolding e' .
  then have mem: \<open>Matched (js '':::Note\<newline>body !!!'') [1 \<mapsto> js ''Note'', 3 \<mapsto> js ''body '']
       \<in> set (segments admonition_regex None (js '':::Note\<newline>body !!!''))\<close>
    by (simp only: list.set insertI1)
  have second: \<open>\<exists>pre post d1 mid d2 ws.
          js '':::Note\<newline>body !!!'' = pre @ js '':::Note\<newline>body !!!'' @ post
          \<and> js '':::Note\<newline>body !!!'' = d1 @ mid @ d2 @ ws
          \<and> (pre = [] \<or> isLineTerminator (last pre))
          \<and> (d1 = js '':::'' \<or> d1 = js ''!!!'') \<and> (d2 = js '':::'' \<or> d2 = js ''!!!'')
          \<and> (\<forall>c \<in> set ws. isWhiteSpace c)
          \<and> (post = [] \<or> isLineTerminator (hd post))\<close>
    by (rule C5_delimiters [where m = \<open>js '':::Note\<newline>body !!!''\<close>
        and g = "[1 \<mapsto> js ''Note'', 3 \<mapsto> js ''body '']"
        and markdown = \<open>js '':::Note\<newline>body !!!''\<close>, THEN conjunct2, THEN mp, OF mem])
  from first mem second show ?thesis by (intro conjI)
qed

text \<open>
  C5, as stated: a region closed by the other spelling, or by a delimiter that does not
  stand on its own line, is not rewritten. Both are rewritten.
\<close>

theorem C5_closing_delimiter_counterexample:
  \<open>preprocessAdmonitions sample_random (js '':::note\<newline>body\<newline>!!!'')
     = js ''\<newline><div class="admonition admonition-note" data-admonition="k3j9x2ab"><p class="admonition-title">''
       @ [8505, 65039] @ js '' Note</p>\<newline>\<newline>body\<newline>\<newline></div>\<newline>''
   \<and> preprocessAdmonitions sample_random (js '':::note\<newline>body :::'')
     = js ''\<newline><div class="admonition admonition-note" data-admonition="k3j9x2ab"><p class="admonition-title">''
       @ [8505, 65039] @ js '' Note</p>\<newline>\<newline>body\<newline>\<newline></div>\<newline>''\<close>
  by (simp add: eval_defs)

end
